theory Spec2Isabelle
  imports Main
begin

section \<open>JavaScript values seen by the visitor counter\<close>

text \<open>
  The client reads one field, \<open>count\<close>, of a JSON body and looks at it through
  \<open>typeof\<close>, \<open>parseInt\<close>, \<open>toString\<close> and a template literal only.

  A Number is NaN, an infinity, or a finite double, given by a decimal as a JSON body
  gives it: \<open>Integer n\<close> is the double nearest to the integer \<open>n\<close>, and
  \<open>Decimal neg s e\<close> the double nearest to \<open>s * 10^e\<close>, negated when \<open>neg\<close> holds
  (3.7 is \<open>Decimal False 37 (-1)\<close>, 1e21 is \<open>Decimal False 1 21\<close> or
  \<open>Integer (10^21)\<close>). Nearest means round to nearest, ties to even, with overflow to
  an infinity and underflow to zero. The two zeros are not told apart (both print as
  \<open>0\<close>).
\<close>

datatype number = NaN | PosInfinity | NegInfinity | Integer int | Decimal bool nat int

datatype jsvalue =
    JSUndefined
  | JSNull
  | JSBoolean bool
  | JSNumber number
  | JSString string
  | JSArray "jsvalue list"
  | JSObject "(string \<times> jsvalue) list"

text \<open>Every \<open>throw\<close> of the source, and every exception the platform raises in it.\<close>

datatype error =
    InvalidApiUrl                 \<comment> \<open>\<open>Error('Invalid API URL configuration')\<close>\<close>
  | NullAccess                    \<comment> \<open>TypeError: property read or write on null or undefined\<close>
  | NetworkError                  \<comment> \<open>TypeError with which \<open>fetch\<close> rejects on a transport failure\<close>
  | AbortError                    \<comment> \<open>the error named \<open>AbortError\<close>: the controller's signal aborted\<close>
  | HttpError nat                 \<comment> \<open>\<open>Error('HTTP error! status: ...')\<close>\<close>
  | InvalidContentType            \<comment> \<open>\<open>Error('Invalid response content-type')\<close>\<close>
  | RequestTimedOut               \<comment> \<open>\<open>Error('Request timed out')\<close>\<close>
  | SyntaxError                   \<comment> \<open>\<open>response.json()\<close> on a body that is not JSON\<close>
  | InvalidVisitorCount jsvalue   \<comment> \<open>\<open>Error('Invalid visitor count received: ...')\<close>\<close>

subsection \<open>Digits, Number to string, parseInt\<close>

definition is_digit :: "char \<Rightarrow> bool" where
  "is_digit c = (c \<in> set ''0123456789'')"

definition digit_char :: "nat \<Rightarrow> char" where
  "digit_char d = ''0123456789'' ! d"

definition digit_val :: "char \<Rightarrow> nat" where
  "digit_val c = length (takeWhile (\<lambda>d. d \<noteq> c) ''0123456789'')"

fun digits_of :: "nat \<Rightarrow> string" where
  "digits_of n = (if n < 10 then [digit_char n] else digits_of (n div 10) @ [digit_char (n mod 10)])"

declare digits_of.simps [simp del]

definition digits_value :: "string \<Rightarrow> nat" where
  "digits_value ds = foldl (\<lambda>acc c. acc * 10 + digit_val c) 0 ds"

text \<open>
  Number-to-string conversion in radix 10, for every double. A finite double \<open>x\<close> is
  printed from the integers \<open>n\<close>, \<open>k\<close>, \<open>s\<close> with \<open>10^(k-1) \<le> s < 10^k\<close> such that
  \<open>s * 10^(n-k)\<close> reads back as \<open>x\<close> and \<open>k\<close> is as small as possible; among several
  \<open>s\<close> the one nearest to \<open>x\<close>, the even one on a tie. Positive rationals are pairs of a
  numerator and a positive denominator, compared by cross multiplication.
\<close>

function bit_count :: "int \<Rightarrow> nat" where
  "bit_count a = (if a \<le> 0 then 0 else Suc (bit_count (a div 2)))"
  by pat_completeness auto
termination
  by (relation "measure nat") auto

declare bit_count.simps [simp del]

function digit_count :: "int \<Rightarrow> nat" where
  "digit_count a = (if a < 10 then 1 else Suc (digit_count (a div 10)))"
  by pat_completeness auto
termination
  by (relation "measure nat") auto

declare digit_count.simps [simp del]

text \<open>\<open>scaled base c e\<close> is the rational \<open>c * base^e\<close> for an integer exponent.\<close>

definition scaled :: "int \<Rightarrow> int \<Rightarrow> int \<Rightarrow> int \<times> int" where
  "scaled base c e = (if 0 \<le> e then (c * base ^ nat e, 1) else (c, base ^ nat (- e)))"

text \<open>
  A double that is not NaN: zero, too large for the format, or \<open>Finite m e\<close> with value
  \<open>m * 2^e\<close>, where \<open>0 < m < 2^53\<close> and \<open>-1074 \<le> e \<le> 971\<close> (\<open>m < 2^52\<close> only with
  \<open>e = -1074\<close>, the subnormal numbers).
\<close>

datatype double = Zero | Overflow | Finite int int

text \<open>The double nearest to a rational \<open>a / b\<close>, ties to the even mantissa.\<close>

definition nearest_double :: "int \<times> int \<Rightarrow> double" where
  "nearest_double q =
     (let a = fst q; b = snd q in
      if a = 0 then Zero
      else
        let t = int (bit_count a) - int (bit_count b);
            p = (if (if 0 \<le> t then b * 2 ^ nat t \<le> a else b \<le> a * 2 ^ nat (- t)) then t else t - 1);
            e = max (p - 52) (- 1074);
            num = (if 0 \<le> e then a else a * 2 ^ nat (- e));
            den = (if 0 \<le> e then b * 2 ^ nat e else b);
            m0 = num div den;
            r = num mod den;
            m = (if den < 2 * r \<or> (2 * r = den \<and> odd m0) then m0 + 1 else m0);
            m' = (if m = 2 ^ 53 then 2 ^ 52 else m);
            e' = (if m = 2 ^ 53 then e + 1 else e)
        in if m' = 0 then Zero else if 971 < e' then Overflow else Finite m' e')"

text \<open>
  \<open>reads_as m e c j\<close>: the decimal \<open>c * 10^j\<close> rounds to the double \<open>m * 2^e\<close>. It lies
  between the midpoints to the two neighbouring doubles, which belong to the double
  when its mantissa is even. Below a power of two the neighbour is half as far.
\<close>

definition reads_as :: "int \<Rightarrow> int \<Rightarrow> int \<Rightarrow> int \<Rightarrow> bool" where
  "reads_as m e c j =
     (let v = scaled 10 c j;
          lo = scaled 2 (4 * m - (if m = 2 ^ 52 \<and> - 1074 < e then 1 else 2)) (e - 2);
          hi = scaled 2 (4 * m + 2) (e - 2)
      in if even m
         then fst lo * snd v \<le> fst v * snd lo \<and> fst v * snd hi \<le> fst hi * snd v
         else fst lo * snd v < fst v * snd lo \<and> fst v * snd hi < fst hi * snd v)"

text \<open>The \<open>n\<close> with \<open>10^(n-1) \<le> x < 10^n\<close>, for a positive rational \<open>x\<close>.\<close>

definition decimal_exponent :: "int \<times> int \<Rightarrow> int" where
  "decimal_exponent x =
     (if snd x \<le> fst x then int (digit_count (fst x div snd x))
      else let d = digit_count (snd x div fst x)
           in if fst x * 10 ^ (d - 1) = snd x then 2 - int d else 1 - int d)"

text \<open>
  The search for the fewest digits, from \<open>k\<close> digits upwards: the two \<open>k\<close>-digit
  decimals around \<open>x\<close> are tried, and the result is \<open>(s, n)\<close>. Seventeen digits always
  suffice for a double; the fuel only makes the search total.
\<close>

fun shortest_from :: "nat \<Rightarrow> int \<Rightarrow> int \<Rightarrow> int \<Rightarrow> int \<Rightarrow> int \<times> int" where
  "shortest_from 0 m e n k =
     (fst (scaled 2 m e) * fst (scaled 10 1 (k - n)) div
        (snd (scaled 2 m e) * snd (scaled 10 1 (k - n))), n)"
| "shortest_from (Suc fuel) m e n k =
     (let x = scaled 2 m e;
          up = scaled 10 1 (k - n);
          num = fst x * fst up;
          den = snd x * snd up;
          lo = num div den;
          r = num mod den;
          ok_lo = reads_as m e lo (n - k);
          ok_hi = reads_as m e (lo + 1) (n - k);
          take_hi = (ok_hi \<and> (\<not> ok_lo \<or> den < 2 * r \<or> (2 * r = den \<and> odd lo)))
      in if take_hi then (if lo + 1 = 10 ^ nat k then (1, n + 1) else (lo + 1, n))
         else if ok_lo then (lo, n)
         else shortest_from fuel m e n (k + 1))"

text \<open>
  The layout of the digits \<open>s\<close> with the point after \<open>n\<close> of them: plain digits and
  zeros up to 21 places, a point inside the digits, \<open>0.\<close> and up to five zeros before
  them, and the exponent form otherwise.
\<close>

definition format_decimal :: "int \<Rightarrow> int \<Rightarrow> string" where
  "format_decimal s n =
     (let ds = digits_of (nat s); k = int (length ds) in
      if k \<le> n \<and> n \<le> 21 then ds @ replicate (nat (n - k)) CHR ''0''
      else if 0 < n \<and> n \<le> 21 then take (nat n) ds @ ''.'' @ drop (nat n) ds
      else if - 6 < n \<and> n \<le> 0 then ''0.'' @ replicate (nat (- n)) CHR ''0'' @ ds
      else (if k = 1 then ds else take 1 ds @ ''.'' @ drop 1 ds) @ ''e'' @
           (if n - 1 < 0 then ''-'' else ''+'') @ digits_of (nat \<bar>n - 1\<bar>))"

definition print_finite :: "bool \<Rightarrow> int \<times> int \<Rightarrow> string" where
  "print_finite neg q =
     (case nearest_double q of
        Zero \<Rightarrow> ''0''
      | Overflow \<Rightarrow> (if neg then ''-Infinity'' else ''Infinity'')
      | Finite m e \<Rightarrow>
          (let sn = shortest_from 20 m e (decimal_exponent (scaled 2 m e)) 1
           in (if neg then ''-'' else []) @ format_decimal (fst sn) (snd sn)))"

text \<open>
  An integer up to \<open>2^53\<close> in magnitude is a double and its fewest digits are its own,
  so it is printed directly.
\<close>

definition number_toString :: "number \<Rightarrow> string" where
  "number_toString x =
     (case x of
        NaN \<Rightarrow> ''NaN''
      | PosInfinity \<Rightarrow> ''Infinity''
      | NegInfinity \<Rightarrow> ''-Infinity''
      | Integer n \<Rightarrow>
          (if \<bar>n\<bar> \<le> 2 ^ 53
           then (if n < 0 then CHR ''-'' # digits_of (nat (- n)) else digits_of (nat n))
           else print_finite (n < 0) (\<bar>n\<bar>, 1))
      | Decimal neg s e \<Rightarrow> print_finite neg (scaled 10 (int s) e))"

text \<open>
  The abstract operation ToString, as a template literal and \<open>Array.prototype.join\<close>
  apply it. An array prints its elements separated by commas, null and undefined
  elements as nothing.
\<close>

fun join_comma :: "string list \<Rightarrow> string" where
  "join_comma [] = []"
| "join_comma [x] = x"
| "join_comma (x # y # ys) = x @ '','' @ join_comma (y # ys)"

fun ToString :: "jsvalue \<Rightarrow> string" where
  "ToString JSUndefined = ''undefined''"
| "ToString JSNull = ''null''"
| "ToString (JSBoolean b) = (if b then ''true'' else ''false'')"
| "ToString (JSNumber x) = number_toString x"
| "ToString (JSString s) = s"
| "ToString (JSArray xs) =
     join_comma (map (\<lambda>x. if x = JSUndefined \<or> x = JSNull then [] else ToString x) xs)"
| "ToString (JSObject kvs) = ''[object Object]''"

text \<open>The method call \<open>count.toString()\<close>: a TypeError on null and undefined.\<close>

definition toString :: "jsvalue \<Rightarrow> error + string" where
  "toString v = (if v = JSUndefined \<or> v = JSNull then Inl NullAccess else Inr (ToString v))"

text \<open>
  \<open>parseInt(string, 10)\<close>: leading white space is skipped, one sign is read, then the
  longest run of decimal digits; no digit gives NaN, here \<open>None\<close>. The result is kept as
  the exact integer. The source compares it with 0 and with \<open>Number.MAX_SAFE_INTEGER\<close>;
  both bounds are doubles and rounding to a double is monotone, so the comparisons on
  the exact integer decide as the ones on the double do.
\<close>

definition is_space :: "char \<Rightarrow> bool" where
  "is_space c = (c \<in> set [CHR 0x09, CHR 0x0A, CHR 0x0B, CHR 0x0C, CHR 0x0D, CHR 0x20])"

definition parseInt :: "string \<Rightarrow> int option" where
  "parseInt s =
     (let t = dropWhile is_space s;
          neg = (t \<noteq> [] \<and> hd t = CHR ''-'');
          u = (if t \<noteq> [] \<and> (hd t = CHR ''-'' \<or> hd t = CHR ''+'') then tl t else t);
          ds = takeWhile is_digit u
      in if ds = [] then None
         else Some (if neg then - int (digits_value ds) else int (digits_value ds)))"

definition MAX_SAFE_INTEGER :: int where
  "MAX_SAFE_INTEGER = 9007199254740991"

text \<open>\<open>String.prototype.includes\<close>.\<close>

fun starts_with :: "string \<Rightarrow> string \<Rightarrow> bool" where
  "starts_with s [] = True"
| "starts_with [] (p # ps) = False"
| "starts_with (c # cs) (p # ps) = (c = p \<and> starts_with cs ps)"

fun includes_str :: "string \<Rightarrow> string \<Rightarrow> bool" where
  "includes_str [] p = (p = [])"
| "includes_str (c # cs) p = (starts_with (c # cs) p \<or> includes_str cs p)"

section \<open>Configuration, network and page\<close>

record config =
  API_URL :: string
  ELEMENT_ID :: string
  MAX_RETRIES :: nat
  RETRY_DELAY :: nat
  TIMEOUT :: nat
  DEBUG :: bool

definition CONFIG :: config where
  "CONFIG = \<lparr> API_URL = ''https://raj-azure-resume-counter-apim.azure-api.net/raj-azure-resume-counter/counter'',
              ELEMENT_ID = ''visitor-count'',
              MAX_RETRIES = 3,
              RETRY_DELAY = 1000,
              TIMEOUT = 15000,
              DEBUG = True \<rparr>"

text \<open>
  A response as the client reads it: the status (\<open>response.ok\<close> is a status from 200 to
  299), the content-type header (\<open>None\<close> when absent) and the body as
  \<open>response.json()\<close> parses it (\<open>None\<close> when it is not JSON).
\<close>

record response =
  status :: nat
  content_type :: "string option"
  body :: "jsvalue option"

definition ok :: "response \<Rightarrow> bool" where
  "ok r = (200 \<le> status r \<and> status r \<le> 299)"

text \<open>
  What one call of \<open>fetch\<close> can do: reject on a transport failure, reject with
  \<open>AbortError\<close> because the controller aborted while it was pending (the timeout timer
  of the attempt fired), or resolve with a response. The network is a function giving
  the outcome of the k-th call of the page load.
\<close>

datatype outcome = Rejected_Network | Rejected_Abort | Resolved response

type_synonym network = "nat \<Rightarrow> outcome"

text \<open>The observable trace: calls of \<open>fetch\<close> with their method, and backoff waits in ms.\<close>

datatype event = Fetch string | Backoff nat

text \<open>
  The page. The container is the element with id \<open>ELEMENT_ID\<close>, if the document has
  one. Its content is either text with no value element in it, or the value element
  \<open>span#count-value\<close> that \<open>initialize\<close> creates. No other element of the host page
  carries one of the two ids. \<open>storage\<close> is the local-storage entry \<open>visitorCount\<close>
  (\<open>None\<close> when \<open>getItem\<close> gives null); local storage is taken to be available.
  \<open>aborted\<close> is the state of the one AbortController's signal, \<open>fetches\<close> counts the
  calls of \<open>fetch\<close>.
\<close>

record span =
  span_text :: string
  span_label :: "string option"

datatype content = Text string | Value_Span span

record element =
  content :: content
  classes :: "string list"
  label :: "string option"

record page =
  container :: "element option"
  storage :: "string option"
  aborted :: bool
  fetches :: nat
  events :: "event list"

section \<open>The VisitorCounter methods\<close>

text \<open>
  The methods of the class, in the order of the source. Logging writes to the console
  only and is left out, and so are the request headers (correlation id, CSRF token),
  which no branch depends on; \<open>crypto.randomUUID\<close> is taken to be available.
\<close>

text \<open>
  \<open>new URL(string)\<close> belongs to the platform. It is a parameter here: \<open>parse s\<close> is
  \<open>None\<close> when the constructor throws (a relative or malformed string) and the
  \<open>protocol\<close> of the parsed URL otherwise.
\<close>

type_synonym url_parser = "string \<Rightarrow> string option"

definition isValidUrl :: "url_parser \<Rightarrow> string \<Rightarrow> bool" where
  "isValidUrl parse s =
     (case parse s of
        None \<Rightarrow> False
      | Some protocol \<Rightarrow> protocol = ''http:'' \<or> protocol = ''https:'')"

text \<open>
  A call of \<open>fetch\<close> with the controller's signal. A signal that is already aborted
  rejects the call at once; a call that ends with \<open>AbortError\<close> leaves the signal
  aborted.
\<close>

definition fetch :: "network \<Rightarrow> string \<Rightarrow> page \<Rightarrow> outcome \<times> page" where
  "fetch net method s =
     (let s1 = s\<lparr> fetches := Suc (fetches s), events := events s @ [Fetch method] \<rparr>;
          out = (if aborted s then Rejected_Abort else net (fetches s))
      in (out, if out = Rejected_Abort then s1\<lparr> aborted := True \<rparr> else s1))"

text \<open>
  The \<open>try\<close> block of the retry loop once \<open>fetch\<close> has settled: a rejection is thrown
  on, a response passes the status check and the content-type check or throws.
\<close>

definition check_response :: "outcome \<Rightarrow> error + response" where
  "check_response out =
     (case out of
        Rejected_Network \<Rightarrow> Inl NetworkError
      | Rejected_Abort \<Rightarrow> Inl AbortError
      | Resolved r \<Rightarrow>
          if \<not> ok r then Inl (HttpError (status r))
          else (case content_type r of
                  None \<Rightarrow> Inl InvalidContentType
                | Some contentType \<Rightarrow>
                    if \<not> includes_str contentType ''application/json'' then Inl InvalidContentType
                    else Inr r))"

text \<open>
  The \<open>for\<close> loop of \<open>fetchWithRetryAndTimeout\<close> from index \<open>i\<close>, with its \<open>catch\<close>
  block: an \<open>AbortError\<close> is thrown on as \<open>Request timed out\<close>, the last index throws
  the error on, any other index waits and goes round again. When the loop ends without
  an iteration the method returns undefined, here \<open>Inr None\<close>.
\<close>

function fetchWithRetryAndTimeout_loop ::
  "config \<Rightarrow> network \<Rightarrow> string \<Rightarrow> nat \<Rightarrow> page \<Rightarrow> (error + response option) \<times> page" where
  "fetchWithRetryAndTimeout_loop cfg net method i s =
     (if i < MAX_RETRIES cfg then
        (let settled = fetch net method s; s1 = snd settled
         in case check_response (fst settled) of
              Inr r \<Rightarrow> (Inr (Some r), s1)
            | Inl e \<Rightarrow>
                if e = AbortError then (Inl RequestTimedOut, s1)
                else if i = MAX_RETRIES cfg - 1 then (Inl e, s1)
                else fetchWithRetryAndTimeout_loop cfg net method (Suc i)
                       (s1\<lparr> events := events s1 @ [Backoff (RETRY_DELAY cfg * 2 ^ i)] \<rparr>))
      else (Inr None, s))"
  by pat_completeness auto
termination
  by (relation "measure (\<lambda>(cfg, net, method, i, s). MAX_RETRIES cfg - i)") auto

declare fetchWithRetryAndTimeout_loop.simps [simp del]

definition fetchWithRetryAndTimeout ::
  "config \<Rightarrow> network \<Rightarrow> string \<Rightarrow> page \<Rightarrow> (error + response option) \<times> page" where
  "fetchWithRetryAndTimeout cfg net method s = fetchWithRetryAndTimeout_loop cfg net method 0 s"

text \<open>The property read \<open>data.count\<close> on a parsed JSON body (a repeated key: the last wins).\<close>

definition get_count :: "jsvalue \<Rightarrow> error + jsvalue" where
  "get_count data =
     (case data of
        JSUndefined \<Rightarrow> Inl NullAccess
      | JSNull \<Rightarrow> Inl NullAccess
      | JSObject kvs \<Rightarrow>
          (case map_of (rev kvs) ''count'' of None \<Rightarrow> Inr JSUndefined | Some v \<Rightarrow> Inr v)
      | _ \<Rightarrow> Inr JSUndefined)"

definition isValidVisitorCount :: "jsvalue \<Rightarrow> bool" where
  "isValidVisitorCount count =
     (case count of
        JSNumber x \<Rightarrow>
          (case parseInt (ToString count) of
             None \<Rightarrow> False
           | Some parsed \<Rightarrow> 0 \<le> parsed \<and> parsed \<le> MAX_SAFE_INTEGER)
      | _ \<Rightarrow> False)"

definition makeRequest :: "config \<Rightarrow> network \<Rightarrow> string \<Rightarrow> page \<Rightarrow> (error + jsvalue) \<times> page" where
  "makeRequest cfg net method s =
     (let res = fetchWithRetryAndTimeout cfg net method s; s1 = snd res
      in case fst res of
           Inl e \<Rightarrow> (Inl e, s1)
         | Inr None \<Rightarrow> (Inl NullAccess, s1)
         | Inr (Some r) \<Rightarrow>
             (case body r of
                None \<Rightarrow> (Inl SyntaxError, s1)
              | Some data \<Rightarrow>
                  (case get_count data of
                     Inl e \<Rightarrow> (Inl e, s1)
                   | Inr count \<Rightarrow>
                       if \<not> isValidVisitorCount count then (Inl (InvalidVisitorCount count), s1)
                       else (Inr count, s1))))"

text \<open>The replacement of \<open>/[^\d]/g\<close> by the empty string.\<close>

definition strip_non_digits :: "string \<Rightarrow> string" where
  "strip_non_digits s = filter is_digit s"

definition updateDOM :: "jsvalue \<Rightarrow> page \<Rightarrow> error + page" where
  "updateDOM count s =
     (case toString count of
        Inl e \<Rightarrow> Inl e
      | Inr str \<Rightarrow>
          (let s1 = s\<lparr> storage := Some (strip_non_digits str) \<rparr>
           in case container s1 of
                None \<Rightarrow> Inr s1
              | Some el \<Rightarrow>
                  (case content el of
                     Text t \<Rightarrow> Inr s1
                   | Value_Span sp \<Rightarrow>
                       (let cachedCount = storage s1
                        in Inr (s1\<lparr> container := Some (el\<lparr> content := Value_Span
                             \<lparr> span_text = (case cachedCount of None \<Rightarrow> [] | Some c \<Rightarrow> c),
                               span_label = Some (''Visitor count: '' @
                                 (case cachedCount of None \<Rightarrow> ''null'' | Some c \<Rightarrow> c)) \<rparr> \<rparr>) \<rparr>)))))"

definition add_class :: "string \<Rightarrow> string list \<Rightarrow> string list" where
  "add_class c cs = (if c \<in> set cs then cs else cs @ [c])"

definition handleError :: "page \<Rightarrow> page" where
  "handleError s =
     (case container s of
        None \<Rightarrow> s
      | Some el \<Rightarrow>
          s\<lparr> container := Some (el\<lparr> content := Text ''Unable to load visitor count'',
                                    classes := add_class ''counter-error'' (classes el),
                                    label := Some ''Error loading visitor count'' \<rparr>) \<rparr>)"

text \<open>
  The two operations. Each wraps the request and the rendering in one \<open>try\<close>; the
  handler renders the error and throws it again.
\<close>

definition updateVisitorCount :: "config \<Rightarrow> network \<Rightarrow> page \<Rightarrow> (error + unit) \<times> page" where
  "updateVisitorCount cfg net s =
     (let res = makeRequest cfg net ''GET'' s; s1 = snd res
      in case fst res of
           Inl e \<Rightarrow> (Inl e, handleError s1)
         | Inr count \<Rightarrow>
             (case updateDOM count s1 of
                Inl e \<Rightarrow> (Inl e, handleError s1)
              | Inr s2 \<Rightarrow> (Inr (), s2)))"

definition incrementVisitorCount :: "config \<Rightarrow> network \<Rightarrow> page \<Rightarrow> (error + jsvalue) \<times> page" where
  "incrementVisitorCount cfg net s =
     (let res = makeRequest cfg net ''POST'' s; s1 = snd res
      in case fst res of
           Inl e \<Rightarrow> (Inl e, handleError s1)
         | Inr count \<Rightarrow>
             (case updateDOM count s1 of
                Inl e \<Rightarrow> (Inl e, handleError s1)
              | Inr s2 \<Rightarrow> (Inr count, s2)))"

text \<open>
  \<open>initialize\<close> catches every error and renders it, so it returns a page and nothing
  escapes. Writing \<open>innerHTML\<close> on a missing container is a TypeError inside the \<open>try\<close>.
\<close>

definition loading :: content where
  "loading = Value_Span \<lparr> span_text = ''Loading...'', span_label = None \<rparr>"

definition initialize :: "config \<Rightarrow> url_parser \<Rightarrow> network \<Rightarrow> page \<Rightarrow> page" where
  "initialize cfg parse net s =
     (if \<not> isValidUrl parse (API_URL cfg) then handleError s
      else case container s of
             None \<Rightarrow> handleError s
           | Some el \<Rightarrow>
               (let s1 = s\<lparr> container := Some (el\<lparr> content := loading \<rparr>) \<rparr>;
                    inc = incrementVisitorCount cfg net s1
                in case fst inc of
                     Inl e \<Rightarrow> handleError (snd inc)
                   | Inr c \<Rightarrow>
                       (let upd = updateVisitorCount cfg net (snd inc)
                        in case fst upd of
                             Inl e \<Rightarrow> handleError (snd upd)
                           | Inr u \<Rightarrow> snd upd)))"

section \<open>Sample pages and networks\<close>

text \<open>
  A page as the browser hands it over at load: the container holds some static text,
  nothing is stored, the signal is live, no call has been made.
\<close>

definition sample_page :: page where
  "sample_page = \<lparr> container = Some \<lparr> content = Text ''...'', classes = [], label = None \<rparr>,
                    storage = None, aborted = False, fetches = 0, events = [] \<rparr>"

text \<open>The same page without the container element.\<close>

definition page_without_container :: page where
  "page_without_container = \<lparr> container = None, storage = None, aborted = False,
                               fetches = 0, events = [] \<rparr>"

text \<open>A server that answers every call with status 200, JSON, and the given count.\<close>

definition net_count :: "jsvalue \<Rightarrow> network" where
  "net_count v k = Resolved \<lparr> status = 200, content_type = Some ''application/json; charset=utf-8'',
                               body = Some (JSObject [(''count'', v)]) \<rparr>"

text \<open>Every call runs into the timeout.\<close>

definition net_timeout :: network where
  "net_timeout k = Rejected_Abort"

text \<open>A transport failure, then a 503, then an HTML page with status 200 for ever.\<close>

definition net_failing :: network where
  "net_failing k =
     (if k = 0 then Rejected_Network
      else if k = 1 then Resolved \<lparr> status = 503, content_type = Some ''application/json'', body = None \<rparr>
      else Resolved \<lparr> status = 200, content_type = Some ''text/html'', body = None \<rparr>)"

text \<open>A transport failure, then calls that run into the timeout.\<close>

definition net_error_then_timeout :: network where
  "net_error_then_timeout k = (if k = 0 then Rejected_Network else Rejected_Abort)"

text \<open>The given count on the first call, then calls that run into the timeout.\<close>

definition net_count_then_timeout :: "jsvalue \<Rightarrow> network" where
  "net_count_then_timeout v k = (if k = 0 then net_count v 0 else Rejected_Abort)"

text \<open>A transport failure on the first call, then the given count.\<close>

definition net_error_then_count :: "jsvalue \<Rightarrow> network" where
  "net_error_then_count v k = (if k = 0 then Rejected_Network else net_count v k)"

text \<open>The sample page once \<open>initialize\<close> has rendered the loading state.\<close>

definition loading_page :: page where
  "loading_page = sample_page\<lparr> container := Some \<lparr> content = loading, classes = [], label = None \<rparr> \<rparr>"

text \<open>
  A stand-in for the platform's URL parser, for the examples: it reads the scheme (a
  letter, then letters, digits, \<open>+\<close>, \<open>-\<close>, \<open>.\<close>, up to a colon) and fails when there is
  none, as \<open>new URL\<close> does on a string with no base. It does not look at what follows
  the colon and does not lower-case the scheme.
\<close>

definition is_alpha :: "char \<Rightarrow> bool" where
  "is_alpha c = (c \<in> set ''abcdefghijklmnopqrstuvwxyzABCDEFGHIJKLMNOPQRSTUVWXYZ'')"

definition is_scheme_char :: "char \<Rightarrow> bool" where
  "is_scheme_char c = (is_alpha c \<or> is_digit c \<or> c \<in> set ''+-.'')"

definition scheme_of_url :: url_parser where
  "scheme_of_url s =
     (case s of
        [] \<Rightarrow> None
      | c # cs \<Rightarrow>
          if \<not> is_alpha c then None
          else (case dropWhile is_scheme_char s of
                  [] \<Rightarrow> None
                | d # rest \<Rightarrow>
                    if d = CHR '':'' then Some (takeWhile is_scheme_char s @ '':'') else None))"

text \<open>The events of one operation: calls with its method, and waits.\<close>

definition only_method :: "string \<Rightarrow> event list \<Rightarrow> bool" where
  "only_method m es = list_all (\<lambda>e. case e of Fetch m' \<Rightarrow> m' = m | Backoff d \<Rightarrow> True) es"

section \<open>Printing and parsing integers\<close>

lemma digit_cases:
  assumes "d < (10::nat)"
  obtains "d = 0" | "d = 1" | "d = 2" | "d = 3" | "d = 4" | "d = 5" | "d = 6" | "d = 7" | "d = 8" | "d = 9"
proof -
  have "d = 0 \<or> d = 1 \<or> d = 2 \<or> d = 3 \<or> d = 4 \<or> d = 5 \<or> d = 6 \<or> d = 7 \<or> d = 8 \<or> d = 9"
    using assms by arith
  then show thesis using that by blast
qed

lemma digit_char_props:
  assumes "d < 10"
  shows "is_digit (digit_char d)" "digit_val (digit_char d) = d" "\<not> is_space (digit_char d)"
    "digit_char d \<noteq> CHR ''-''" "digit_char d \<noteq> CHR ''+''"
  using assms by (cases d rule: digit_cases; simp add: is_digit_def digit_char_def digit_val_def is_space_def)+

lemma digits_of_digits: "list_all is_digit (digits_of n)"
proof (induction n rule: digits_of.induct)
  case (1 n)
  show ?case
  proof (cases "n < 10")
    case True
    then show ?thesis by (subst digits_of.simps) (simp add: digit_char_props)
  next
    case False
    have "n mod 10 < 10" by simp
    then have "is_digit (digit_char (n mod 10))" by (rule digit_char_props)
    then show ?thesis using False 1 by (subst digits_of.simps) simp
  qed
qed

lemma digits_of_nonempty: "digits_of n \<noteq> []"
  by (subst digits_of.simps) simp

lemma digits_value_snoc: "digits_value (ds @ [c]) = digits_value ds * 10 + digit_val c"
  by (simp add: digits_value_def)

lemma digits_value_digits_of: "digits_value (digits_of n) = n"
proof (induction n rule: digits_of.induct)
  case (1 n)
  show ?case
  proof (cases "n < 10")
    case True
    then show ?thesis by (subst digits_of.simps) (simp add: digits_value_def digit_char_props)
  next
    case False
    have "n mod 10 < 10" by simp
    then have "digit_val (digit_char (n mod 10)) = n mod 10" by (rule digit_char_props)
    then show ?thesis using False 1 by (subst digits_of.simps) (simp add: digits_value_snoc)
  qed
qed

lemma hd_digits_of: "is_digit (hd (digits_of n))"
  using digits_of_digits[of n] digits_of_nonempty[of n] by (cases "digits_of n") simp_all

lemma is_digit_not_other: "is_digit c \<Longrightarrow> \<not> is_space c \<and> c \<noteq> CHR ''-'' \<and> c \<noteq> CHR ''+''"
  by (auto simp: is_digit_def is_space_def)

lemma parseInt_digits: "parseInt (digits_of n) = Some (int n)"
proof -
  have h: "\<not> is_space (hd (digits_of n))" "hd (digits_of n) \<noteq> CHR ''-''" "hd (digits_of n) \<noteq> CHR ''+''"
    using is_digit_not_other[OF hd_digits_of[of n]] by simp_all
  have d: "dropWhile is_space (digits_of n) = digits_of n"
    using h(1) digits_of_nonempty[of n] by (cases "digits_of n") simp_all
  have t: "takeWhile is_digit (digits_of n) = digits_of n"
    using digits_of_digits[of n] by (simp add: takeWhile_eq_all_conv list_all_iff)
  show ?thesis
    using h digits_of_nonempty[of n] by (simp add: parseInt_def d t digits_value_digits_of)
qed

lemma parseInt_minus_digits: "parseInt (CHR ''-'' # digits_of n) = Some (- int n)"
proof -
  have t: "takeWhile is_digit (digits_of n) = digits_of n"
    using digits_of_digits[of n] by (simp add: takeWhile_eq_all_conv list_all_iff)
  show ?thesis
    using digits_of_nonempty[of n] by (simp add: parseInt_def is_space_def t digits_value_digits_of)
qed

lemma valid_integer:
  assumes "\<bar>n\<bar> \<le> 2 ^ 53"
  shows "isValidVisitorCount (JSNumber (Integer n)) \<longleftrightarrow> 0 \<le> n \<and> n \<le> MAX_SAFE_INTEGER"
proof (cases "n < 0")
  case True
  then show ?thesis using assms
    by (simp add: isValidVisitorCount_def number_toString_def parseInt_minus_digits)
next
  case False
  then show ?thesis using assms
    by (simp add: isValidVisitorCount_def number_toString_def parseInt_digits)
qed

section \<open>The retry loop, step by step\<close>

lemma fetch_storage [simp]: "storage (snd (fetch net m s)) = storage s"
  by (simp add: fetch_def Let_def)
lemma fetch_container [simp]: "container (snd (fetch net m s)) = container s"
  by (simp add: fetch_def Let_def)
lemma fetch_events [simp]: "events (snd (fetch net m s)) = events s @ [Fetch m]"
  by (simp add: fetch_def Let_def)
lemma fetch_fetches [simp]: "fetches (snd (fetch net m s)) = Suc (fetches s)"
  by (simp add: fetch_def Let_def)
lemma loop_done: "\<not> i < MAX_RETRIES cfg \<Longrightarrow> fetchWithRetryAndTimeout_loop cfg net m i s = (Inr None, s)"
  by (subst fetchWithRetryAndTimeout_loop.simps) simp

lemma loop_ok:
  "i < MAX_RETRIES cfg \<Longrightarrow> check_response (fst (fetch net m s)) = Inr r \<Longrightarrow>
   fetchWithRetryAndTimeout_loop cfg net m i s = (Inr (Some r), snd (fetch net m s))"
  by (subst fetchWithRetryAndTimeout_loop.simps) (simp add: Let_def)

lemma loop_abort:
  "i < MAX_RETRIES cfg \<Longrightarrow> check_response (fst (fetch net m s)) = Inl AbortError \<Longrightarrow>
   fetchWithRetryAndTimeout_loop cfg net m i s = (Inl RequestTimedOut, snd (fetch net m s))"
  by (subst fetchWithRetryAndTimeout_loop.simps) (simp add: Let_def)

lemma loop_last:
  "i < MAX_RETRIES cfg \<Longrightarrow> check_response (fst (fetch net m s)) = Inl e \<Longrightarrow> e \<noteq> AbortError \<Longrightarrow>
   i = MAX_RETRIES cfg - 1 \<Longrightarrow>
   fetchWithRetryAndTimeout_loop cfg net m i s = (Inl e, snd (fetch net m s))"
  by (subst fetchWithRetryAndTimeout_loop.simps) (simp add: Let_def)

lemma loop_retry:
  "i < MAX_RETRIES cfg \<Longrightarrow> check_response (fst (fetch net m s)) = Inl e \<Longrightarrow> e \<noteq> AbortError \<Longrightarrow>
   i \<noteq> MAX_RETRIES cfg - 1 \<Longrightarrow>
   fetchWithRetryAndTimeout_loop cfg net m i s =
     fetchWithRetryAndTimeout_loop cfg net m (Suc i)
       ((snd (fetch net m s))\<lparr> events := events (snd (fetch net m s)) @ [Backoff (RETRY_DELAY cfg * 2 ^ i)] \<rparr>)"
  by (subst fetchWithRetryAndTimeout_loop.simps) (simp add: Let_def)

text \<open>The loop touches neither the storage nor the container, and only adds events of its own method.\<close>

lemma loop_frame:
  "storage (snd (fetchWithRetryAndTimeout_loop cfg net m i s)) = storage s \<and>
   container (snd (fetchWithRetryAndTimeout_loop cfg net m i s)) = container s \<and>
   (\<exists>es. events (snd (fetchWithRetryAndTimeout_loop cfg net m i s)) = events s @ es \<and> only_method m es)"
proof (induction "MAX_RETRIES cfg - i" arbitrary: i s)
  case 0
  then have "\<not> i < MAX_RETRIES cfg" by simp
  then show ?case by (simp add: loop_done only_method_def)
next
  case (Suc n)
  then have lt: "i < MAX_RETRIES cfg" by simp
  let ?s1 = "snd (fetch net m s)"
  show ?case
  proof (cases "check_response (fst (fetch net m s))")
    case (Inr r)
    then show ?thesis using lt by (simp add: loop_ok only_method_def)
  next
    case (Inl e)
    show ?thesis
    proof (cases "e = AbortError \<or> i = MAX_RETRIES cfg - 1")
      case True
      have "fetchWithRetryAndTimeout_loop cfg net m i s = (Inl RequestTimedOut, ?s1) \<or>
            fetchWithRetryAndTimeout_loop cfg net m i s = (Inl e, ?s1)"
      proof (cases "e = AbortError")
        case True
        then show ?thesis using lt Inl by (simp add: loop_abort)
      next
        case False
        then show ?thesis using lt Inl True by (simp add: loop_last)
      qed
      then show ?thesis by (auto simp: only_method_def)
    next
      case False
      let ?s2 = "?s1\<lparr> events := events ?s1 @ [Backoff (RETRY_DELAY cfg * 2 ^ i)] \<rparr>"
      have eq: "fetchWithRetryAndTimeout_loop cfg net m i s = fetchWithRetryAndTimeout_loop cfg net m (Suc i) ?s2"
        using lt Inl False by (simp add: loop_retry)
      have n: "n = MAX_RETRIES cfg - Suc i" using Suc.hyps(2) by simp
      from Suc.hyps(1)[OF n, of ?s2] obtain es where
        st: "storage (snd (fetchWithRetryAndTimeout_loop cfg net m (Suc i) ?s2)) = storage ?s2"
        and co: "container (snd (fetchWithRetryAndTimeout_loop cfg net m (Suc i) ?s2)) = container ?s2"
        and ev: "events (snd (fetchWithRetryAndTimeout_loop cfg net m (Suc i) ?s2)) = events ?s2 @ es"
        and om: "only_method m es" by blast
      have "events (snd (fetchWithRetryAndTimeout_loop cfg net m i s)) =
              events s @ (Fetch m # Backoff (RETRY_DELAY cfg * 2 ^ i) # es)"
        using eq ev by simp
      moreover have "only_method m (Fetch m # Backoff (RETRY_DELAY cfg * 2 ^ i) # es)"
        using om by (simp add: only_method_def)
      ultimately have "\<exists>es. events (snd (fetchWithRetryAndTimeout_loop cfg net m i s)) = events s @ es \<and> only_method m es"
        by blast
      moreover have "storage (snd (fetchWithRetryAndTimeout_loop cfg net m i s)) = storage s"
        using eq st by simp
      moreover have "container (snd (fetchWithRetryAndTimeout_loop cfg net m i s)) = container s"
        using eq co by simp
      ultimately show ?thesis by simp
    qed
  qed
qed

text \<open>
  Attempts that fail with anything but an abort are skipped over: \<open>j\<close> of them from index
  \<open>i\<close> leave \<open>j\<close> calls and \<open>j\<close> waits in the trace, provided the last index is not
  reached.
\<close>

lemma fetch_retryable:
  assumes "\<not> aborted s" "check_response (net (fetches s)) = Inl e" "e \<noteq> AbortError"
  shows "fetch net m s = (net (fetches s), s\<lparr> fetches := Suc (fetches s), events := events s @ [Fetch m] \<rparr>)"
proof -
  have "net (fetches s) \<noteq> Rejected_Abort"
    using assms by (auto simp: check_response_def)
  then show ?thesis using assms(1) by (simp add: fetch_def Let_def)
qed

lemma loop_skip:
  "\<not> aborted s \<Longrightarrow> i + j < MAX_RETRIES cfg \<Longrightarrow>
   \<forall>k<j. \<exists>e. check_response (net (fetches s + k)) = Inl e \<and> e \<noteq> AbortError \<Longrightarrow>
   fetchWithRetryAndTimeout_loop cfg net m i s =
     fetchWithRetryAndTimeout_loop cfg net m (i + j)
       (s\<lparr> fetches := fetches s + j,
           events := events s @ concat (map (\<lambda>k. [Fetch m, Backoff (RETRY_DELAY cfg * 2 ^ k)]) [i..<i + j]) \<rparr>)"
proof (induction j arbitrary: i s)
  case 0
  then show ?case by simp
next
  case (Suc j)
  from Suc.prems(3) obtain e where e: "check_response (net (fetches s)) = Inl e" "e \<noteq> AbortError"
    by force
  let ?s2 = "s\<lparr> fetches := Suc (fetches s),
                events := events s @ [Fetch m, Backoff (RETRY_DELAY cfg * 2 ^ i)] \<rparr>"
  have f: "fetch net m s = (net (fetches s), s\<lparr> fetches := Suc (fetches s), events := events s @ [Fetch m] \<rparr>)"
    using fetch_retryable[of s net e m] Suc.prems(1) e by simp
  have step: "fetchWithRetryAndTimeout_loop cfg net m i s = fetchWithRetryAndTimeout_loop cfg net m (Suc i) ?s2"
    using loop_retry[of i cfg net m s e] Suc.prems(2) e f by simp
  have a2: "\<not> aborted ?s2" using Suc.prems(1) by simp
  have b2: "Suc i + j < MAX_RETRIES cfg" using Suc.prems(2) by simp
  have c2: "\<forall>k<j. \<exists>e. check_response (net (fetches ?s2 + k)) = Inl e \<and> e \<noteq> AbortError"
  proof (intro allI impI)
    fix k assume "k < j"
    then have "Suc k < Suc j" by simp
    with Suc.prems(3) have "\<exists>e. check_response (net (fetches s + Suc k)) = Inl e \<and> e \<noteq> AbortError"
      by blast
    then show "\<exists>e. check_response (net (fetches ?s2 + k)) = Inl e \<and> e \<noteq> AbortError"
      by simp
  qed
  have up: "[i..<i + Suc j] = i # [Suc i..<Suc i + j]"
    by (simp add: upt_conv_Cons)
  show ?case
    unfolding step Suc.IH[OF a2 b2 c2] up by simp
qed

lemma upt3: "[0..<2] = [0, Suc 0]"
  by (simp add: upt_rec)

section \<open>Requests, validation and rendering: auxiliary facts\<close>

lemma first_attempt_ok:
  assumes "0 < MAX_RETRIES cfg" and "\<not> aborted s" and "check_response (net (fetches s)) = Inr r"
  shows "fetchWithRetryAndTimeout cfg net m s =
           (Inr (Some r), s\<lparr> fetches := Suc (fetches s), events := events s @ [Fetch m] \<rparr>)"
proof -
  have "net (fetches s) \<noteq> Rejected_Abort"
    using assms(3) by (auto simp: check_response_def)
  then have f: "fetch net m s = (net (fetches s), s\<lparr> fetches := Suc (fetches s), events := events s @ [Fetch m] \<rparr>)"
    using assms(2) by (simp add: fetch_def Let_def)
  show ?thesis
    unfolding fetchWithRetryAndTimeout_def
    using loop_ok[of 0 cfg net m s r] assms(1,3) f by simp
qed

lemma makeRequest_state:
  "snd (makeRequest cfg net m s) = snd (fetchWithRetryAndTimeout cfg net m s)"
  by (simp add: makeRequest_def Let_def split: sum.splits option.splits)

lemma makeRequest_frame:
  "storage (snd (makeRequest cfg net m s)) = storage s \<and>
   container (snd (makeRequest cfg net m s)) = container s \<and>
   (\<exists>es. events (snd (makeRequest cfg net m s)) = events s @ es \<and> only_method m es)"
  unfolding makeRequest_state fetchWithRetryAndTimeout_def by (rule loop_frame)

lemma makeRequest_valid:
  "fst (makeRequest cfg net m s) = Inr c \<Longrightarrow> isValidVisitorCount c"
  by (auto simp: makeRequest_def Let_def split: sum.splits option.splits if_splits)

lemma makeRequest_after_fetch:
  assumes "fetchWithRetryAndTimeout cfg net m s = (Inr (Some r), s')"
    and "body r = Some data" and "get_count data = Inr c"
  shows "makeRequest cfg net m s =
           (if isValidVisitorCount c then Inr c else Inl (InvalidVisitorCount c), s')"
  using assms by (simp add: makeRequest_def Let_def)

lemma string_invalid: "\<not> isValidVisitorCount (JSString str)"
  by (simp add: isValidVisitorCount_def)

lemma get_count_sample: "get_count (JSObject [(''count'', v)]) = Inr v"
  by (simp add: get_count_def)

lemma net_count_ok:
  "check_response (net_count v k) =
     Inr \<lparr> status = 200, content_type = Some ''application/json; charset=utf-8'',
           body = Some (JSObject [(''count'', v)]) \<rparr>"
  by (simp add: net_count_def check_response_def ok_def)

lemma sample_fetch:
  "fetchWithRetryAndTimeout CONFIG (net_count v) m sample_page =
     (Inr (Some \<lparr> status = 200, content_type = Some ''application/json; charset=utf-8'',
                  body = Some (JSObject [(''count'', v)]) \<rparr>),
      sample_page\<lparr> fetches := 1, events := [Fetch m] \<rparr>)"
  using first_attempt_ok[of CONFIG sample_page "net_count v" _ m, OF _ _ net_count_ok]
  by (simp add: CONFIG_def sample_page_def)

lemma sample_invalid:
  "\<not> isValidVisitorCount (JSNumber (Integer (- 1)))"
  "\<not> isValidVisitorCount (JSString ''abc'')"
  "\<not> isValidVisitorCount (JSNumber (Integer 9007199254740992))"
  by (simp_all add: valid_integer string_invalid MAX_SAFE_INTEGER_def)

lemma handleError_frame [simp]:
  "storage (handleError s) = storage s" "events (handleError s) = events s"
  "fetches (handleError s) = fetches s" "aborted (handleError s) = aborted s"
  by (simp_all add: handleError_def split: option.splits)

lemma handleError_container:
  "container (handleError s) =
     map_option (\<lambda>el. el\<lparr> content := Text ''Unable to load visitor count'',
                         classes := add_class ''counter-error'' (classes el),
                         label := Some ''Error loading visitor count'' \<rparr>) (container s)"
  by (simp add: handleError_def split: option.splits)

lemma add_class_member: "c \<in> set (add_class c cs)"
  by (simp add: add_class_def)

lemma add_class_idem: "add_class c (add_class c cs) = add_class c cs"
  by (simp add: add_class_def)

lemma handleError_idem: "handleError (handleError s) = handleError s"
  by (cases "container s") (simp_all add: handleError_def add_class_idem)

lemma handleError_no_container: "container s = None \<Longrightarrow> handleError s = s"
  by (simp add: handleError_def)

lemma sample_urls:
  "scheme_of_url ''/api/counter'' = None"
  "scheme_of_url ''ftp://example.com/counter'' = Some ''ftp:''"
  "scheme_of_url ''not a url'' = None"
  "scheme_of_url (API_URL CONFIG) = Some ''https:''"
  by (simp_all add: scheme_of_url_def is_alpha_def is_scheme_char_def is_digit_def CONFIG_def)

lemma strip_idem: "strip_non_digits (strip_non_digits x) = strip_non_digits x"
  by (simp add: strip_non_digits_def)

lemma valid_number:
  assumes "isValidVisitorCount c"
  obtains x where "c = JSNumber x"
  using assms by (cases c) (simp_all add: isValidVisitorCount_def)

lemma updateDOM_result:
  assumes "toString c = Inr str"
  shows "updateDOM c s =
     Inr (case container s of
            None \<Rightarrow> s\<lparr> storage := Some (strip_non_digits str) \<rparr>
          | Some el \<Rightarrow>
              (case content el of
                 Text t \<Rightarrow> s\<lparr> storage := Some (strip_non_digits str) \<rparr>
               | Value_Span sp \<Rightarrow>
                   s\<lparr> storage := Some (strip_non_digits str),
                      container := Some (el\<lparr> content := Value_Span
                        \<lparr> span_text = strip_non_digits str,
                          span_label = Some (''Visitor count: '' @ strip_non_digits str) \<rparr> \<rparr>) \<rparr>))"
  using assms by (simp add: updateDOM_def split: option.splits content.splits)

lemma updateDOM_frame:
  assumes "updateDOM c s = Inr t"
  shows "storage t = Some (strip_non_digits (ToString c))" "events t = events s" "fetches t = fetches s"
proof -
  from assms have ts: "toString c = Inr (ToString c)"
    by (auto simp: updateDOM_def toString_def split: if_splits)
  from updateDOM_result[OF ts, of s] assms
  show "storage t = Some (strip_non_digits (ToString c))" "events t = events s" "fetches t = fetches s"
    by (auto split: option.splits content.splits)
qed

lemma updateDOM_valid:
  assumes "isValidVisitorCount c"
  shows "\<exists>t. updateDOM c s = Inr t"
proof -
  from assms obtain x where "c = JSNumber x" by (rule valid_number)
  then have "toString c = Inr (ToString c)" by (simp add: toString_def)
  from updateDOM_result[OF this] show ?thesis by blast
qed

lemma increment_cases:
  "(case fst (makeRequest cfg net ''POST'' s) of
      Inl e \<Rightarrow> incrementVisitorCount cfg net s = (Inl e, handleError (snd (makeRequest cfg net ''POST'' s)))
    | Inr c \<Rightarrow> \<exists>t. updateDOM c (snd (makeRequest cfg net ''POST'' s)) = Inr t \<and>
                  incrementVisitorCount cfg net s = (Inr c, t))"
proof (cases "fst (makeRequest cfg net ''POST'' s)")
  case (Inl e)
  then show ?thesis by (simp add: incrementVisitorCount_def)
next
  case (Inr c)
  then have "isValidVisitorCount c" by (rule makeRequest_valid)
  from updateDOM_valid[OF this] obtain t where "updateDOM c (snd (makeRequest cfg net ''POST'' s)) = Inr t"
    by blast
  then show ?thesis using Inr by (simp add: incrementVisitorCount_def)
qed

lemma update_cases:
  "(case fst (makeRequest cfg net ''GET'' s) of
      Inl e \<Rightarrow> updateVisitorCount cfg net s = (Inl e, handleError (snd (makeRequest cfg net ''GET'' s)))
    | Inr c \<Rightarrow> \<exists>t. updateDOM c (snd (makeRequest cfg net ''GET'' s)) = Inr t \<and>
                  updateVisitorCount cfg net s = (Inr (), t))"
proof (cases "fst (makeRequest cfg net ''GET'' s)")
  case (Inl e)
  then show ?thesis by (simp add: updateVisitorCount_def)
next
  case (Inr c)
  then have "isValidVisitorCount c" by (rule makeRequest_valid)
  from updateDOM_valid[OF this] obtain t where "updateDOM c (snd (makeRequest cfg net ''GET'' s)) = Inr t"
    by blast
  then show ?thesis using Inr by (simp add: updateVisitorCount_def)
qed

lemma increment_storage:
  "(case fst (makeRequest cfg net ''POST'' s) of
      Inl e \<Rightarrow> fst (incrementVisitorCount cfg net s) = Inl e \<and>
               storage (snd (incrementVisitorCount cfg net s)) = storage s
    | Inr c \<Rightarrow> isValidVisitorCount c \<and> fst (incrementVisitorCount cfg net s) = Inr c \<and>
               storage (snd (incrementVisitorCount cfg net s)) = Some (strip_non_digits (ToString c)))"
proof (cases "fst (makeRequest cfg net ''POST'' s)")
  case (Inl e)
  with increment_cases[of cfg net s] makeRequest_frame[of cfg net "''POST''" s]
  show ?thesis by simp
next
  case (Inr c)
  with increment_cases[of cfg net s] obtain t where
    t: "updateDOM c (snd (makeRequest cfg net ''POST'' s)) = Inr t"
       "incrementVisitorCount cfg net s = (Inr c, t)" by auto
  show ?thesis using Inr t(2) updateDOM_frame(1)[OF t(1)] makeRequest_valid[OF Inr] by simp
qed

lemma update_storage:
  "(case fst (makeRequest cfg net ''GET'' s) of
      Inl e \<Rightarrow> fst (updateVisitorCount cfg net s) = Inl e \<and>
               storage (snd (updateVisitorCount cfg net s)) = storage s
    | Inr c \<Rightarrow> isValidVisitorCount c \<and> fst (updateVisitorCount cfg net s) = Inr () \<and>
               storage (snd (updateVisitorCount cfg net s)) = Some (strip_non_digits (ToString c)))"
proof (cases "fst (makeRequest cfg net ''GET'' s)")
  case (Inl e)
  with update_cases[of cfg net s] makeRequest_frame[of cfg net "''GET''" s]
  show ?thesis by simp
next
  case (Inr c)
  with update_cases[of cfg net s] obtain t where
    t: "updateDOM c (snd (makeRequest cfg net ''GET'' s)) = Inr t"
       "updateVisitorCount cfg net s = (Inr (), t)" by auto
  show ?thesis using Inr t(2) updateDOM_frame(1)[OF t(1)] makeRequest_valid[OF Inr] by simp
qed

lemma initialize_storage:
  assumes "isValidUrl parse (API_URL cfg)" and "container s = Some el"
  shows "storage (initialize cfg parse net s) =
     (case fst (makeRequest cfg net ''POST'' (s\<lparr> container := Some (el\<lparr> content := loading \<rparr>) \<rparr>)) of
        Inl e \<Rightarrow> storage s
      | Inr c \<Rightarrow>
          (case fst (makeRequest cfg net ''GET''
                       (snd (incrementVisitorCount cfg net (s\<lparr> container := Some (el\<lparr> content := loading \<rparr>) \<rparr>)))) of
             Inl e \<Rightarrow> Some (strip_non_digits (ToString c))
           | Inr c' \<Rightarrow> Some (strip_non_digits (ToString c'))))"
proof -
  let ?s1 = "s\<lparr> container := Some (el\<lparr> content := loading \<rparr>) \<rparr>"
  let ?inc = "incrementVisitorCount cfg net ?s1"
  let ?upd = "updateVisitorCount cfg net (snd ?inc)"
  have init: "initialize cfg parse net s =
      (case fst ?inc of Inl e \<Rightarrow> handleError (snd ?inc)
       | Inr c \<Rightarrow> (case fst ?upd of Inl e \<Rightarrow> handleError (snd ?upd) | Inr u \<Rightarrow> snd ?upd))"
    using assms by (simp add: initialize_def Let_def split: sum.splits)
  show ?thesis
  proof (cases "fst (makeRequest cfg net ''POST'' ?s1)")
    case (Inl e)
    with increment_storage[of cfg net ?s1] show ?thesis by (simp add: init)
  next
    case (Inr c)
    with increment_storage[of cfg net ?s1]
    have i: "fst ?inc = Inr c" "storage (snd ?inc) = Some (strip_non_digits (ToString c))" by simp_all
    show ?thesis
    proof (cases "fst (makeRequest cfg net ''GET'' (snd ?inc))")
      case (Inl e)
      with update_storage[of cfg net "snd ?inc"] i Inr show ?thesis by (simp add: init)
    next
      case Inr': (Inr c')
      with update_storage[of cfg net "snd ?inc"] i Inr show ?thesis by (simp add: init)
    qed
  qed
qed

lemma only_method_other: "only_method m es \<Longrightarrow> m' \<noteq> m \<Longrightarrow> Fetch m' \<notin> set es"
  by (auto simp: only_method_def list_all_iff)

lemma first_attempt_timeout:
  assumes "0 < MAX_RETRIES cfg" and "aborted s \<or> net (fetches s) = Rejected_Abort"
  shows "makeRequest cfg net m s =
           (Inl RequestTimedOut,
            s\<lparr> fetches := Suc (fetches s), events := events s @ [Fetch m], aborted := True \<rparr>)"
proof -
  have f: "fetch net m s =
      (Rejected_Abort, s\<lparr> fetches := Suc (fetches s), events := events s @ [Fetch m], aborted := True \<rparr>)"
    using assms(2) by (auto simp: fetch_def Let_def)
  have "fetchWithRetryAndTimeout cfg net m s = (Inl RequestTimedOut, snd (fetch net m s))"
    unfolding fetchWithRetryAndTimeout_def
    using assms(1) f by (intro loop_abort) (simp_all add: check_response_def)
  then show ?thesis using f by (simp add: makeRequest_def)
qed

lemma first_attempt_count:
  assumes "0 < MAX_RETRIES cfg" and "\<not> aborted s" and "check_response (net (fetches s)) = Inr r"
    and "body r = Some data" and "get_count data = Inr c" and "isValidVisitorCount c"
  shows "makeRequest cfg net m s =
           (Inr c, s\<lparr> fetches := Suc (fetches s), events := events s @ [Fetch m] \<rparr>)"
proof -
  have "fetchWithRetryAndTimeout cfg net m s =
          (Inr (Some r), s\<lparr> fetches := Suc (fetches s), events := events s @ [Fetch m] \<rparr>)"
    using assms(1-3) by (rule first_attempt_ok)
  from makeRequest_after_fetch[OF this assms(4,5)] assms(6) show ?thesis by simp
qed

lemma loading_page_simps:
  "container loading_page = Some \<lparr> content = loading, classes = [], label = None \<rparr>"
  "storage loading_page = None" "\<not> aborted loading_page" "fetches loading_page = 0"
  "events loading_page = []"
  "sample_page\<lparr> container := Some (\<lparr> content = Text ''...'', classes = [], label = None \<rparr>\<lparr> content := loading \<rparr>) \<rparr> = loading_page"
  by (simp_all add: loading_page_def sample_page_def)

lemma sample_page_simps:
  "container sample_page = Some \<lparr> content = Text ''...'', classes = [], label = None \<rparr>"
  "storage sample_page = None" "\<not> aborted sample_page" "fetches sample_page = 0"
  "events sample_page = []"
  by (simp_all add: sample_page_def)

lemma config_simps:
  "MAX_RETRIES CONFIG = 3" "RETRY_DELAY CONFIG = 1000" "isValidUrl scheme_of_url (API_URL CONFIG)"
  by (simp_all add: CONFIG_def[symmetric] isValidUrl_def sample_urls) (simp_all add: CONFIG_def)

lemma forty_two:
  "number_toString (Integer 42) = ''42''" "strip_non_digits ''42'' = ''42''"
  "isValidVisitorCount (JSNumber (Integer 42))"
  by (simp_all add: number_toString_def digits_of.simps digit_char_def strip_non_digits_def is_digit_def
       valid_integer MAX_SAFE_INTEGER_def)

lemma increment_success:
  assumes "container s = Some el" and "content el = Value_Span sp"
    and "fst (makeRequest cfg net ''POST'' s) = Inr c"
  shows "incrementVisitorCount cfg net s =
           (Inr c,
            (snd (makeRequest cfg net ''POST'' s))
              \<lparr> storage := Some (strip_non_digits (ToString c)),
                container := Some (el\<lparr> content := Value_Span
                  \<lparr> span_text = strip_non_digits (ToString c),
                    span_label = Some (''Visitor count: '' @ strip_non_digits (ToString c)) \<rparr> \<rparr>) \<rparr>)"
proof -
  let ?s1 = "snd (makeRequest cfg net ''POST'' s)"
  have co: "container ?s1 = Some el"
    using makeRequest_frame[of cfg net "''POST''" s] assms(1) by simp
  from makeRequest_valid[OF assms(3)] obtain x where "c = JSNumber x"
    by (rule valid_number)
  then have ts: "toString c = Inr (ToString c)" by (simp add: toString_def)
  show ?thesis
    using updateDOM_result[OF ts, of ?s1] co assms(2,3) by (simp add: incrementVisitorCount_def)
qed

lemma second_attempt_ok:
  assumes "1 < MAX_RETRIES cfg" and "\<not> aborted s"
    and "check_response (net (fetches s)) = Inl e" and "e \<noteq> AbortError"
    and "check_response (net (Suc (fetches s))) = Inr r"
  shows "fetchWithRetryAndTimeout cfg net m s =
           (Inr (Some r),
            s\<lparr> fetches := fetches s + 2,
               events := events s @ [Fetch m, Backoff (RETRY_DELAY cfg), Fetch m] \<rparr>)"
proof -
  let ?s1 = "s\<lparr> fetches := Suc (fetches s), events := events s @ [Fetch m] \<rparr>"
  let ?s2 = "?s1\<lparr> events := events ?s1 @ [Backoff (RETRY_DELAY cfg * 2 ^ 0)] \<rparr>"
  have f1: "fetch net m s = (net (fetches s), ?s1)"
    using fetch_retryable[of s net e m] assms(2-4) by simp
  have step: "fetchWithRetryAndTimeout_loop cfg net m 0 s = fetchWithRetryAndTimeout_loop cfg net m (Suc 0) ?s2"
    using loop_retry[of 0 cfg net m s e] assms(1,3,4) f1 by simp
  have "net (fetches ?s2) \<noteq> Rejected_Abort"
    using assms(5) by (auto simp: check_response_def)
  then have f2: "fetch net m ?s2 =
      (net (fetches ?s2), ?s2\<lparr> fetches := Suc (fetches ?s2), events := events ?s2 @ [Fetch m] \<rparr>)"
    using assms(2) by (simp add: fetch_def Let_def)
  have "fetchWithRetryAndTimeout_loop cfg net m (Suc 0) ?s2 = (Inr (Some r), snd (fetch net m ?s2))"
    using assms(1,5) f2 by (intro loop_ok) simp_all
  then show ?thesis
    using step f2 by (simp add: fetchWithRetryAndTimeout_def)
qed

text \<open>
  What is stored for an integer count, and the prints of 3.7 and of \<open>10^21\<close>, worked
  out step by step: the nearest double, its decimal exponent, the fewest digits, the
  layout.
\<close>

lemma strip_digits_of: "strip_non_digits (digits_of n) = digits_of n"
  using digits_of_digits[of n] by (simp add: strip_non_digits_def list_all_iff)

lemma stored_integer:
  assumes "0 \<le> n" and "n \<le> MAX_SAFE_INTEGER"
  shows "strip_non_digits (ToString (JSNumber (Integer n))) = digits_of (nat n)"
  using assms by (simp add: number_toString_def MAX_SAFE_INTEGER_def strip_digits_of)

lemma print_3_7: "number_toString (Decimal False 37 (- 1)) = ''3.7''"
proof -
  have b: "bit_count 37 = 6" "bit_count 10 = 4"
    by (simp_all add: bit_count.simps)
  have q: "scaled 10 37 (- 1) = (37, 10)"
    by (simp add: scaled_def)
  have nd: "nearest_double (37, 10) = Finite 8331659310635418 (- 51)"
    by (simp add: nearest_double_def Let_def b)
  have x: "scaled 2 8331659310635418 (- 51) = (8331659310635418, 2251799813685248)"
    by (simp add: scaled_def)
  have de: "decimal_exponent (8331659310635418, 2251799813685248) = 1"
    by (simp add: decimal_exponent_def digit_count.simps)
  have sh: "shortest_from 20 8331659310635418 (- 51) 1 1 = (37, 1)"
    by (simp add: eval_nat_numeral reads_as_def scaled_def Let_def)
  have fm: "format_decimal 37 1 = ''3.7''"
    by (simp add: format_decimal_def digits_of.simps digit_char_def Let_def)
  show ?thesis
    by (simp add: number_toString_def print_finite_def q nd x de sh fm)
qed

lemma print_1e21: "number_toString (Integer 1000000000000000000000) = ''1e+21''"
proof -
  have b: "bit_count 1000000000000000000000 = 70" "bit_count 1 = 1"
    by (simp_all add: bit_count.simps)
  have nd: "nearest_double (1000000000000000000000, 1) = Finite 7629394531250000 17"
    by (simp add: nearest_double_def Let_def b)
  have x: "scaled 2 7629394531250000 17 = (1000000000000000000000, 1)"
    and up: "scaled 10 1 (- 21) = (1, 1000000000000000000000)"
    and v1: "scaled 10 1 21 = (1000000000000000000000, 1)"
    and v2: "scaled 10 2 21 = (2000000000000000000000, 1)"
    and lo: "scaled 2 30517578124999998 15 = (999999999999999934464, 1)"
    and hi: "scaled 2 30517578125000002 15 = (1000000000000000065536, 1)"
    by (simp_all add: scaled_def)
  have de: "decimal_exponent (1000000000000000000000, 1) = 22"
    by (simp add: decimal_exponent_def digit_count.simps)
  have r1: "reads_as 7629394531250000 17 1 21"
    by (simp add: reads_as_def Let_def v1 lo hi)
  have r2: "\<not> reads_as 7629394531250000 17 2 21"
    by (simp add: reads_as_def Let_def v2 lo hi)
  have "shortest_from (Suc 19) 7629394531250000 17 22 1 = (1, 22)"
    by (subst shortest_from.simps(2)) (simp add: Let_def x up r1 r2)
  then have sh: "shortest_from 20 7629394531250000 17 22 1 = (1, 22)"
    by simp
  have fm: "format_decimal 1 22 = ''1e+21''"
    by (simp add: format_decimal_def digits_of.simps digit_char_def Let_def)
  show ?thesis
    by (simp add: number_toString_def print_finite_def nd x de sh fm)
qed

lemma valid_3_7: "isValidVisitorCount (JSNumber (Decimal False 37 (- 1)))"
  by (simp add: isValidVisitorCount_def print_3_7 parseInt_def is_space_def is_digit_def
      digits_value_def digit_val_def MAX_SAFE_INTEGER_def)

lemma valid_1e21: "isValidVisitorCount (JSNumber (Integer 1000000000000000000000))"
  by (simp add: isValidVisitorCount_def print_1e21 parseInt_def is_space_def is_digit_def
      digits_value_def digit_val_def MAX_SAFE_INTEGER_def)

lemma strip_samples: "strip_non_digits ''3.7'' = ''37''" "strip_non_digits ''1e+21'' = ''121''"
  by (simp_all add: strip_non_digits_def is_digit_def)

lemma sample_increment:
  assumes "isValidVisitorCount c"
  shows "fst (incrementVisitorCount CONFIG (net_count c) loading_page) = Inr c \<and>
         storage (snd (incrementVisitorCount CONFIG (net_count c) loading_page)) =
           Some (strip_non_digits (ToString c))"
proof -
  have "makeRequest CONFIG (net_count c) ''POST'' loading_page =
     (Inr c, loading_page\<lparr> fetches := Suc (fetches loading_page),
                            events := events loading_page @ [Fetch ''POST''] \<rparr>)"
    using first_attempt_count[of CONFIG loading_page "net_count c" _ _ c "''POST''", OF _ _ net_count_ok _ get_count_sample]
      assms by (simp add: config_simps loading_page_simps)
  then show ?thesis
    using increment_storage[of CONFIG "net_count c" loading_page] by simp
qed

section \<open>Retry and timeout\<close>

text \<open>
  C3. When every attempt of a request fails with an error other than the abort (a
  transport failure, a status outside 200..299, a missing or wrong content type), and
  the signal was live, \<open>fetchWithRetryAndTimeout\<close> calls \<open>fetch\<close> exactly
  \<open>MAX_RETRIES\<close> times. The trace is a call and a wait of \<open>RETRY_DELAY * 2^i\<close> for each
  index \<open>i\<close> from 0 to \<open>MAX_RETRIES - 2\<close>, then the last call with no wait after it, and
  the error of the last attempt is the one thrown to the caller.
\<close>

theorem retryable_failures_exhaust_budget:
  assumes "0 < MAX_RETRIES cfg" and "\<not> aborted s"
    and "\<forall>k<MAX_RETRIES cfg. \<exists>e. check_response (net (fetches s + k)) = Inl e \<and> e \<noteq> AbortError"
  shows "\<exists>e. check_response (net (fetches s + (MAX_RETRIES cfg - 1))) = Inl e \<and>
     fetchWithRetryAndTimeout cfg net m s =
       (Inl e, s\<lparr> fetches := fetches s + MAX_RETRIES cfg,
                  events := events s @
                    concat (map (\<lambda>i. [Fetch m, Backoff (RETRY_DELAY cfg * 2 ^ i)]) [0..<MAX_RETRIES cfg - 1]) @
                    [Fetch m] \<rparr>)"
proof -
  let ?n = "MAX_RETRIES cfg - 1"
  let ?s' = "s\<lparr> fetches := fetches s + ?n,
               events := events s @ concat (map (\<lambda>k. [Fetch m, Backoff (RETRY_DELAY cfg * 2 ^ k)]) [0..<0 + ?n]) \<rparr>"
  have "?n < MAX_RETRIES cfg" using assms(1) by simp
  with assms(3) obtain e where e: "check_response (net (fetches s + ?n)) = Inl e" "e \<noteq> AbortError"
    by blast
  have pre: "\<forall>k<?n. \<exists>e. check_response (net (fetches s + k)) = Inl e \<and> e \<noteq> AbortError"
    using assms(3) by simp
  have skip: "fetchWithRetryAndTimeout_loop cfg net m 0 s = fetchWithRetryAndTimeout_loop cfg net m (0 + ?n) ?s'"
    using assms(1) by (intro loop_skip[OF assms(2) _ pre]) simp
  have f: "fetch net m ?s' = (net (fetches ?s'), ?s'\<lparr> fetches := Suc (fetches ?s'), events := events ?s' @ [Fetch m] \<rparr>)"
    using e assms(2) by (intro fetch_retryable[where e = e]) simp_all
  have last: "fetchWithRetryAndTimeout_loop cfg net m ?n ?s' = (Inl e, snd (fetch net m ?s'))"
    using assms(1) e f by (intro loop_last) simp_all
  have "fetchWithRetryAndTimeout cfg net m s = (Inl e, snd (fetch net m ?s'))"
    using skip last by (simp add: fetchWithRetryAndTimeout_def)
  then show ?thesis using e(1) f assms(1) by simp
qed

text \<open>
  With the shipped configuration (3 attempts, 1000 ms): a transport failure, a 503 and
  an HTML answer give three calls, waits of 1000 and 2000 ms, and the content-type error.
\<close>

theorem retryable_failures_exhaust_budget_witness:
  "0 < MAX_RETRIES CONFIG \<and> \<not> aborted sample_page \<and>
   check_response (net_failing 0) = Inl NetworkError \<and>
   check_response (net_failing 1) = Inl (HttpError 503) \<and>
   check_response (net_failing 2) = Inl InvalidContentType \<and>
   fetchWithRetryAndTimeout CONFIG net_failing ''POST'' sample_page =
     (Inl InvalidContentType,
      sample_page\<lparr> fetches := 3,
                    events := [Fetch ''POST'', Backoff 1000, Fetch ''POST'', Backoff 2000, Fetch ''POST''] \<rparr>)"
proof -
  have h1: "0 < MAX_RETRIES CONFIG" by (simp add: CONFIG_def)
  have h2: "\<not> aborted sample_page" by (simp add: sample_page_def)
  have h3: "\<forall>k<MAX_RETRIES CONFIG. \<exists>e. check_response (net_failing (fetches sample_page + k)) = Inl e \<and> e \<noteq> AbortError"
    by (simp add: net_failing_def check_response_def ok_def)
  have l: "check_response (net_failing (fetches sample_page + (MAX_RETRIES CONFIG - 1))) = Inl InvalidContentType"
    by (simp add: net_failing_def check_response_def ok_def CONFIG_def sample_page_def)
  from retryable_failures_exhaust_budget[OF h1 h2 h3, of "''POST''"] l
  have "fetchWithRetryAndTimeout CONFIG net_failing ''POST'' sample_page =
       (Inl InvalidContentType, sample_page\<lparr> fetches := fetches sample_page + MAX_RETRIES CONFIG,
                  events := events sample_page @
                    concat (map (\<lambda>i. [Fetch ''POST'', Backoff (RETRY_DELAY CONFIG * 2 ^ i)]) [0..<MAX_RETRIES CONFIG - 1]) @
                    [Fetch ''POST''] \<rparr>)"
    by simp
  then have "fetchWithRetryAndTimeout CONFIG net_failing ''POST'' sample_page =
     (Inl InvalidContentType,
      sample_page\<lparr> fetches := 3,
                    events := [Fetch ''POST'', Backoff 1000, Fetch ''POST'', Backoff 2000, Fetch ''POST''] \<rparr>)"
    by (simp add: CONFIG_def sample_page_def upt3)
  moreover have "check_response (net_failing 0) = Inl NetworkError \<and>
      check_response (net_failing 1) = Inl (HttpError 503) \<and>
      check_response (net_failing 2) = Inl InvalidContentType"
    by (simp add: net_failing_def check_response_def ok_def)
  ultimately show ?thesis using h1 h2 by blast
qed

text \<open>
  C1, as stated, fails: an attempt that ends with \<open>AbortError\<close> is not retried. With
  three attempts allowed and a first attempt that times out, there is one call, no wait,
  and \<open>Request timed out\<close> is thrown although the budget is not used up.
\<close>

theorem timeout_retried_counterexample:
  "MAX_RETRIES CONFIG = 3 \<and>
   fetchWithRetryAndTimeout CONFIG net_timeout ''POST'' sample_page =
     (Inl RequestTimedOut, sample_page\<lparr> fetches := 1, events := [Fetch ''POST''], aborted := True \<rparr>)"
proof -
  have "fetch net_timeout ''POST'' sample_page =
          (Rejected_Abort, sample_page\<lparr> fetches := 1, events := [Fetch ''POST''], aborted := True \<rparr>)"
    by (simp add: fetch_def net_timeout_def sample_page_def)
  then have "fetchWithRetryAndTimeout_loop CONFIG net_timeout ''POST'' 0 sample_page =
          (Inl RequestTimedOut, sample_page\<lparr> fetches := 1, events := [Fetch ''POST''], aborted := True \<rparr>)"
    using loop_abort[of 0 CONFIG net_timeout "''POST''" sample_page]
    by (simp add: CONFIG_def check_response_def)
  then show ?thesis by (simp add: fetchWithRetryAndTimeout_def CONFIG_def)
qed

text \<open>
  C1, amended. The \<open>catch\<close> block tests for \<open>AbortError\<close> before it looks at the index:
  when the attempts before index \<open>k\<close> fail with other errors and attempt \<open>k\<close> runs into
  the timeout, the operation ends at that attempt, whatever is left of the budget, with
  the distinct failure \<open>Request timed out\<close>. The trace holds the \<open>k\<close> earlier calls with
  their waits and the call that timed out; no wait and no call follows, and the signal
  stays aborted.
\<close>

theorem timeout_ends_operation:
  assumes "k < MAX_RETRIES cfg" and "\<not> aborted s"
    and "\<forall>j<k. \<exists>e. check_response (net (fetches s + j)) = Inl e \<and> e \<noteq> AbortError"
    and "net (fetches s + k) = Rejected_Abort"
  shows "fetchWithRetryAndTimeout cfg net m s =
       (Inl RequestTimedOut,
        s\<lparr> fetches := fetches s + k + 1,
           events := events s @
                    concat (map (\<lambda>i. [Fetch m, Backoff (RETRY_DELAY cfg * 2 ^ i)]) [0..<k]) @
                    [Fetch m],
           aborted := True \<rparr>)"
proof -
  let ?s' = "s\<lparr> fetches := fetches s + k,
               events := events s @ concat (map (\<lambda>k. [Fetch m, Backoff (RETRY_DELAY cfg * 2 ^ k)]) [0..<0 + k]) \<rparr>"
  have skip: "fetchWithRetryAndTimeout_loop cfg net m 0 s = fetchWithRetryAndTimeout_loop cfg net m (0 + k) ?s'"
    using assms(1) by (intro loop_skip[OF assms(2) _ assms(3)]) simp
  have f: "fetch net m ?s' = (Rejected_Abort, ?s'\<lparr> fetches := Suc (fetches ?s'), events := events ?s' @ [Fetch m], aborted := True \<rparr>)"
    using assms(2,4) by (simp add: fetch_def Let_def)
  have "fetchWithRetryAndTimeout_loop cfg net m k ?s' = (Inl RequestTimedOut, snd (fetch net m ?s'))"
    using assms(1) f by (intro loop_abort) (simp_all add: check_response_def)
  then have "fetchWithRetryAndTimeout cfg net m s = (Inl RequestTimedOut, snd (fetch net m ?s'))"
    using skip by (simp add: fetchWithRetryAndTimeout_def)
  then show ?thesis using f by simp
qed

text \<open>A transport failure, a wait of 1000 ms, then a call that times out: two calls of three.\<close>

theorem timeout_ends_operation_witness:
  "(1::nat) < MAX_RETRIES CONFIG \<and> \<not> aborted sample_page \<and>
   check_response (net_error_then_timeout 0) = Inl NetworkError \<and>
   net_error_then_timeout 1 = Rejected_Abort \<and>
   fetchWithRetryAndTimeout CONFIG net_error_then_timeout ''POST'' sample_page =
     (Inl RequestTimedOut,
      sample_page\<lparr> fetches := 2, events := [Fetch ''POST'', Backoff 1000, Fetch ''POST''], aborted := True \<rparr>)"
proof -
  have h1: "(1::nat) < MAX_RETRIES CONFIG" by (simp add: CONFIG_def)
  have h2: "\<not> aborted sample_page" by (simp add: sample_page_def)
  have h3: "\<forall>j<1. \<exists>e. check_response (net_error_then_timeout (fetches sample_page + j)) = Inl e \<and> e \<noteq> AbortError"
    by (simp add: net_error_then_timeout_def check_response_def sample_page_def)
  have h4: "net_error_then_timeout (fetches sample_page + 1) = Rejected_Abort"
    by (simp add: net_error_then_timeout_def)
  from timeout_ends_operation[OF h1 h2 h3 h4, of "''POST''"]
  have "fetchWithRetryAndTimeout CONFIG net_error_then_timeout ''POST'' sample_page =
     (Inl RequestTimedOut,
      sample_page\<lparr> fetches := 2, events := [Fetch ''POST'', Backoff 1000, Fetch ''POST''], aborted := True \<rparr>)"
    by (simp add: CONFIG_def sample_page_def)
  moreover have "check_response (net_error_then_timeout 0) = Inl NetworkError \<and>
      net_error_then_timeout 1 = Rejected_Abort"
    by (simp add: net_error_then_timeout_def check_response_def)
  ultimately show ?thesis using h1 h2 by blast
qed

section \<open>Response validation\<close>

text \<open>
  C2, as stated, fails: the count \<open>"42"\<close> sent as a string does not pass
  \<open>isValidVisitorCount\<close>, and \<open>makeRequest\<close> throws the validation error for it
  after the one successful call.
\<close>

theorem numeric_string_counterexample:
  "\<not> isValidVisitorCount (JSString ''42'') \<and>
   makeRequest CONFIG (net_count (JSString ''42'')) ''GET'' sample_page =
     (Inl (InvalidVisitorCount (JSString ''42'')), sample_page\<lparr> fetches := 1, events := [Fetch ''GET''] \<rparr>)"
  using makeRequest_after_fetch[OF sample_fetch[of "JSString ''42''" "''GET''"], of "JSObject [(''count'', JSString ''42'')]" "JSString ''42''"]
  by (simp add: string_invalid get_count_sample)

text \<open>
  C2, amended. \<open>isValidVisitorCount\<close> returns false for every value whose type is not
  number, before it parses anything. So once the exchange has succeeded, a count sent
  as a string, numeric or not, makes \<open>makeRequest\<close> throw the validation error; a count
  sent as a JSON number that is an integer in \<open>[0, MAX_SAFE_INTEGER]\<close> passes and is
  the value \<open>makeRequest\<close> returns.
\<close>

theorem numeric_string_rejected:
  assumes "fetchWithRetryAndTimeout cfg net m s = (Inr (Some r), s')"
    and "body r = Some data" and "get_count data = Inr count"
  shows "(count = JSString str \<longrightarrow>
            \<not> isValidVisitorCount count \<and>
            makeRequest cfg net m s = (Inl (InvalidVisitorCount count), s')) \<and>
         (count = JSNumber (Integer n) \<and> 0 \<le> n \<and> n \<le> MAX_SAFE_INTEGER \<longrightarrow>
            isValidVisitorCount count \<and> makeRequest cfg net m s = (Inr count, s'))"
proof (intro conjI impI)
  assume c: "count = JSString str"
  then show "\<not> isValidVisitorCount count" by (simp add: string_invalid)
  with makeRequest_after_fetch[OF assms]
  show "makeRequest cfg net m s = (Inl (InvalidVisitorCount count), s')" by simp
next
  assume c: "count = JSNumber (Integer n) \<and> 0 \<le> n \<and> n \<le> MAX_SAFE_INTEGER"
  then have "\<bar>n\<bar> \<le> 2 ^ 53" by (simp add: MAX_SAFE_INTEGER_def)
  with c show v: "isValidVisitorCount count" by (simp add: valid_integer)
  with makeRequest_after_fetch[OF assms]
  show "makeRequest cfg net m s = (Inr count, s')" by simp
qed

text \<open>The string \<open>"42"\<close> and the number 42 from the same server, on the same page.\<close>

theorem numeric_string_rejected_witness:
  "makeRequest CONFIG (net_count (JSString ''42'')) ''POST'' sample_page =
     (Inl (InvalidVisitorCount (JSString ''42'')), sample_page\<lparr> fetches := 1, events := [Fetch ''POST''] \<rparr>) \<and>
   makeRequest CONFIG (net_count (JSNumber (Integer 42))) ''POST'' sample_page =
     (Inr (JSNumber (Integer 42)), sample_page\<lparr> fetches := 1, events := [Fetch ''POST''] \<rparr>)"
proof -
  have a: "makeRequest CONFIG (net_count (JSString ''42'')) ''POST'' sample_page =
     (Inl (InvalidVisitorCount (JSString ''42'')), sample_page\<lparr> fetches := 1, events := [Fetch ''POST''] \<rparr>)"
    using numeric_string_rejected[OF sample_fetch[of "JSString ''42''" "''POST''"], of "JSObject [(''count'', JSString ''42'')]" "JSString ''42''" "''42''"]
    by (simp add: get_count_sample)
  have b: "makeRequest CONFIG (net_count (JSNumber (Integer 42))) ''POST'' sample_page =
     (Inr (JSNumber (Integer 42)), sample_page\<lparr> fetches := 1, events := [Fetch ''POST''] \<rparr>)"
    using numeric_string_rejected[OF sample_fetch[of "JSNumber (Integer 42)" "''POST''"], of "JSObject [(''count'', JSNumber (Integer 42))]" "JSNumber (Integer 42)" _ 42]
    by (simp add: get_count_sample MAX_SAFE_INTEGER_def)
  from a b show ?thesis by simp
qed

text \<open>
  C5. A successfully fetched response whose count is -1, the string \<open>"abc"\<close>, or
  9007199254740993 fails validation, and the operation ends with the validation error
  at once: whatever calls and waits it took to fetch the response, \<open>makeRequest\<close>
  throws in the state the fetch left, with no further call and no wait, and the
  operation hands the error on after rendering it. The JSON number 9007199254740993 is
  not a double; \<open>response.json()\<close> reads it as the nearest one, 9007199254740992, which
  is above \<open>MAX_SAFE_INTEGER\<close> all the same.
\<close>

theorem invalid_count_not_retried:
  assumes "fetchWithRetryAndTimeout cfg net m s = (Inr (Some r), s')"
    and "body r = Some data" and "get_count data = Inr count"
    and "count = JSNumber (Integer (- 1)) \<or> count = JSString ''abc'' \<or>
         count = JSNumber (Integer 9007199254740992)"
  shows "\<not> isValidVisitorCount count \<and>
         makeRequest cfg net m s = (Inl (InvalidVisitorCount count), s') \<and>
         (m = ''POST'' \<longrightarrow>
            incrementVisitorCount cfg net s = (Inl (InvalidVisitorCount count), handleError s')) \<and>
         (m = ''GET'' \<longrightarrow>
            updateVisitorCount cfg net s = (Inl (InvalidVisitorCount count), handleError s'))"
proof -
  have inv: "\<not> isValidVisitorCount count"
    using assms(4) sample_invalid by auto
  have mk: "makeRequest cfg net m s = (Inl (InvalidVisitorCount count), s')"
    using makeRequest_after_fetch[OF assms(1-3)] inv by simp
  show ?thesis
    using inv mk by (auto simp: incrementVisitorCount_def updateVisitorCount_def)
qed

text \<open>
  The three bodies with the shipped configuration: answered on the first call, and
  answered on the second call after a transport failure and its wait.
\<close>

theorem invalid_count_not_retried_witness:
  "makeRequest CONFIG (net_count (JSNumber (Integer (- 1)))) ''POST'' sample_page =
     (Inl (InvalidVisitorCount (JSNumber (Integer (- 1)))),
      sample_page\<lparr> fetches := 1, events := [Fetch ''POST''] \<rparr>) \<and>
   makeRequest CONFIG (net_error_then_count (JSString ''abc'')) ''POST'' sample_page =
     (Inl (InvalidVisitorCount (JSString ''abc'')),
      sample_page\<lparr> fetches := 2, events := [Fetch ''POST'', Backoff 1000, Fetch ''POST''] \<rparr>) \<and>
   makeRequest CONFIG (net_error_then_count (JSNumber (Integer 9007199254740992))) ''GET'' sample_page =
     (Inl (InvalidVisitorCount (JSNumber (Integer 9007199254740992))),
      sample_page\<lparr> fetches := 2, events := [Fetch ''GET'', Backoff 1000, Fetch ''GET''] \<rparr>)"
proof -
  have two: "fetchWithRetryAndTimeout CONFIG (net_error_then_count v) m sample_page =
     (Inr (Some \<lparr> status = 200, content_type = Some ''application/json; charset=utf-8'',
                  body = Some (JSObject [(''count'', v)]) \<rparr>),
      sample_page\<lparr> fetches := 2, events := [Fetch m, Backoff 1000, Fetch m] \<rparr>)" for v m
  proof -
    have c0: "check_response (net_error_then_count v (fetches sample_page)) = Inl NetworkError"
      by (simp add: net_error_then_count_def check_response_def sample_page_simps)
    have c1: "check_response (net_error_then_count v (Suc (fetches sample_page))) =
        Inr \<lparr> status = 200, content_type = Some ''application/json; charset=utf-8'',
              body = Some (JSObject [(''count'', v)]) \<rparr>"
      by (simp add: net_error_then_count_def net_count_ok)
    have "1 < MAX_RETRIES CONFIG" "\<not> aborted sample_page"
      by (simp_all add: config_simps sample_page_simps)
    from second_attempt_ok[OF this c0 _ c1, of m] show ?thesis
      by (simp add: config_simps sample_page_simps)
  qed
  have a: "makeRequest CONFIG (net_count (JSNumber (Integer (- 1)))) ''POST'' sample_page =
     (Inl (InvalidVisitorCount (JSNumber (Integer (- 1)))),
      sample_page\<lparr> fetches := 1, events := [Fetch ''POST''] \<rparr>)"
    using invalid_count_not_retried[OF sample_fetch[of "JSNumber (Integer (- 1))" "''POST''"] _ get_count_sample]
    by simp
  have b: "makeRequest CONFIG (net_error_then_count (JSString ''abc'')) ''POST'' sample_page =
     (Inl (InvalidVisitorCount (JSString ''abc'')),
      sample_page\<lparr> fetches := 2, events := [Fetch ''POST'', Backoff 1000, Fetch ''POST''] \<rparr>)"
    using invalid_count_not_retried[OF two[of "JSString ''abc''" "''POST''"] _ get_count_sample]
    by simp
  have c: "makeRequest CONFIG (net_error_then_count (JSNumber (Integer 9007199254740992))) ''GET'' sample_page =
     (Inl (InvalidVisitorCount (JSNumber (Integer 9007199254740992))),
      sample_page\<lparr> fetches := 2, events := [Fetch ''GET'', Backoff 1000, Fetch ''GET''] \<rparr>)"
    using invalid_count_not_retried[OF two[of "JSNumber (Integer 9007199254740992)" "''GET''"] _ get_count_sample]
    by simp
  from a b c show ?thesis by simp
qed

section \<open>Initialization\<close>

text \<open>
  C4. When the configured endpoint fails URL validation (the parser throws, as on a
  relative path or a malformed string, or the protocol is neither \<open>http:\<close> nor
  \<open>https:\<close>), \<open>initialize\<close> does nothing but run the error-rendering routine: no call
  of \<open>fetch\<close> is made, and the container, when the page has one, shows the fixed
  message with the error class and label.
\<close>

theorem invalid_url_no_request:
  assumes "\<not> isValidUrl parse (API_URL cfg)"
  shows "initialize cfg parse net s = handleError s \<and>
         events (initialize cfg parse net s) = events s \<and>
         fetches (initialize cfg parse net s) = fetches s \<and>
         (container s = Some el \<longrightarrow>
            container (initialize cfg parse net s) =
              Some (el\<lparr> content := Text ''Unable to load visitor count'',
                        classes := add_class ''counter-error'' (classes el),
                        label := Some ''Error loading visitor count'' \<rparr>) \<and>
            ''counter-error'' \<in> set (add_class ''counter-error'' (classes el)))"
proof -
  have "initialize cfg parse net s = handleError s"
    using assms by (simp add: initialize_def)
  then show ?thesis
    by (simp add: handleError_container add_class_member)
qed

text \<open>A relative path, a scheme that is not http(s), and a malformed string.\<close>

theorem invalid_url_no_request_witness:
  "\<not> isValidUrl scheme_of_url ''/api/counter'' \<and>
   \<not> isValidUrl scheme_of_url ''ftp://example.com/counter'' \<and>
   \<not> isValidUrl scheme_of_url ''not a url'' \<and>
   initialize (CONFIG\<lparr> API_URL := ''/api/counter'' \<rparr>) scheme_of_url (net_count (JSNumber (Integer 42))) sample_page =
     sample_page\<lparr> container := Some \<lparr> content = Text ''Unable to load visitor count'',
                                       classes = [''counter-error''],
                                       label = Some ''Error loading visitor count'' \<rparr> \<rparr> \<and>
   events (initialize (CONFIG\<lparr> API_URL := ''ftp://example.com/counter'' \<rparr>) scheme_of_url
             (net_count (JSNumber (Integer 42))) sample_page) = [] \<and>
   events (initialize (CONFIG\<lparr> API_URL := ''not a url'' \<rparr>) scheme_of_url
             (net_count (JSNumber (Integer 42))) sample_page) = []"
proof -
  have u: "\<not> isValidUrl scheme_of_url ''/api/counter''"
    "\<not> isValidUrl scheme_of_url ''ftp://example.com/counter''"
    "\<not> isValidUrl scheme_of_url ''not a url''"
    by (simp_all add: isValidUrl_def sample_urls)
  have a: "initialize (CONFIG\<lparr> API_URL := ''/api/counter'' \<rparr>) scheme_of_url (net_count (JSNumber (Integer 42))) sample_page =
     sample_page\<lparr> container := Some \<lparr> content = Text ''Unable to load visitor count'',
                                       classes = [''counter-error''],
                                       label = Some ''Error loading visitor count'' \<rparr> \<rparr>"
    using invalid_url_no_request[of scheme_of_url "CONFIG\<lparr> API_URL := ''/api/counter'' \<rparr>" "net_count (JSNumber (Integer 42))" sample_page] u(1)
    by (simp add: handleError_def sample_page_def add_class_def)
  have b: "events (initialize (CONFIG\<lparr> API_URL := ''ftp://example.com/counter'' \<rparr>) scheme_of_url
             (net_count (JSNumber (Integer 42))) sample_page) = []"
    using invalid_url_no_request[of scheme_of_url "CONFIG\<lparr> API_URL := ''ftp://example.com/counter'' \<rparr>" "net_count (JSNumber (Integer 42))" sample_page] u(2)
    by (simp add: sample_page_def)
  have c: "events (initialize (CONFIG\<lparr> API_URL := ''not a url'' \<rparr>) scheme_of_url
             (net_count (JSNumber (Integer 42))) sample_page) = []"
    using invalid_url_no_request[of scheme_of_url "CONFIG\<lparr> API_URL := ''not a url'' \<rparr>" "net_count (JSNumber (Integer 42))" sample_page] u(3)
    by (simp add: sample_page_def)
  from u a b c show ?thesis by simp
qed

text \<open>
  C10. When the page has no container element, \<open>initialize\<close> fails on the write to the
  missing element before any request: the handler runs the error-rendering routine,
  which finds no element and changes nothing, so the page is returned as it was, with
  no call of \<open>fetch\<close>, and no error leaves \<open>initialize\<close>.
\<close>

theorem missing_container_no_request:
  assumes "container s = None"
  shows "initialize cfg parse net s = handleError s \<and> handleError s = s \<and>
         events (initialize cfg parse net s) = events s \<and>
         fetches (initialize cfg parse net s) = fetches s"
proof -
  have "initialize cfg parse net s = handleError s"
    using assms by (simp add: initialize_def)
  moreover have "handleError s = s"
    using assms by (rule handleError_no_container)
  ultimately show ?thesis by simp
qed

text \<open>The shipped configuration, whose endpoint is valid, on a page without the container.\<close>

theorem missing_container_no_request_witness:
  "container page_without_container = None \<and>
   isValidUrl scheme_of_url (API_URL CONFIG) \<and>
   initialize CONFIG scheme_of_url (net_count (JSNumber (Integer 42))) page_without_container =
     page_without_container \<and>
   events page_without_container = [] \<and> fetches page_without_container = 0"
proof -
  have h: "container page_without_container = None" by (simp add: page_without_container_def)
  have u: "isValidUrl scheme_of_url (API_URL CONFIG)" by (simp add: isValidUrl_def sample_urls)
  from missing_container_no_request[OF h, of CONFIG scheme_of_url "net_count (JSNumber (Integer 42))"]
  have "initialize CONFIG scheme_of_url (net_count (JSNumber (Integer 42))) page_without_container =
     page_without_container" by simp
  with h u show ?thesis by (simp add: page_without_container_def)
qed

text \<open>
  C6. When the configuration is valid, the container is there and the increment fails,
  whatever the failure, \<open>initialize\<close> stops: the events of the page load hold no call
  with method GET, and the container ends with the fixed error message as its text, the
  class \<open>counter-error\<close> in its class list and the error label.
\<close>

theorem increment_failure_skips_read:
  assumes "isValidUrl parse (API_URL cfg)" and "container s = Some el"
    and "fst (incrementVisitorCount cfg net (s\<lparr> container := Some (el\<lparr> content := loading \<rparr>) \<rparr>)) = Inl e"
  shows "(\<exists>es. events (initialize cfg parse net s) = events s @ es \<and> Fetch ''GET'' \<notin> set es) \<and>
         container (initialize cfg parse net s) =
           Some (el\<lparr> content := Text ''Unable to load visitor count'',
                     classes := add_class ''counter-error'' (classes el),
                     label := Some ''Error loading visitor count'' \<rparr>) \<and>
         ''counter-error'' \<in> set (add_class ''counter-error'' (classes el))"
proof -
  let ?s1 = "s\<lparr> container := Some (el\<lparr> content := loading \<rparr>) \<rparr>"
  let ?mk = "makeRequest cfg net ''POST'' ?s1"
  have init: "initialize cfg parse net s = handleError (snd (incrementVisitorCount cfg net ?s1))"
    using assms by (simp add: initialize_def Let_def)
  have "\<exists>e'. fst ?mk = Inl e'"
    using increment_cases[of cfg net ?s1] assms(3) by (cases "fst ?mk") auto
  then have inc: "snd (incrementVisitorCount cfg net ?s1) = handleError (snd ?mk)"
    using increment_cases[of cfg net ?s1] by auto
  have fin: "initialize cfg parse net s = handleError (snd ?mk)"
    by (simp add: init inc handleError_idem)
  from makeRequest_frame[of cfg net "''POST''" ?s1] obtain es where
    co: "container (snd ?mk) = container ?s1"
    and ev: "events (snd ?mk) = events ?s1 @ es" and om: "only_method ''POST'' es" by blast
  have "Fetch ''GET'' \<notin> set es"
    using om by (rule only_method_other) simp
  moreover have "events (initialize cfg parse net s) = events s @ es"
    using fin ev by simp
  moreover have "container (initialize cfg parse net s) =
           Some (el\<lparr> content := Text ''Unable to load visitor count'',
                     classes := add_class ''counter-error'' (classes el),
                     label := Some ''Error loading visitor count'' \<rparr>)"
    using fin co by (simp add: handleError_container)
  ultimately show ?thesis by (auto simp: add_class_member)
qed

text \<open>An increment that times out on the sample page.\<close>

theorem increment_failure_skips_read_witness:
  "isValidUrl scheme_of_url (API_URL CONFIG) \<and>
   fst (incrementVisitorCount CONFIG net_timeout loading_page) = Inl RequestTimedOut \<and>
   Fetch ''GET'' \<notin> set (events (initialize CONFIG scheme_of_url net_timeout sample_page)) \<and>
   container (initialize CONFIG scheme_of_url net_timeout sample_page) =
     Some \<lparr> content = Text ''Unable to load visitor count'', classes = [''counter-error''],
            label = Some ''Error loading visitor count'' \<rparr>"
proof -
  have mk: "makeRequest CONFIG net_timeout ''POST'' loading_page =
      (Inl RequestTimedOut, loading_page\<lparr> fetches := Suc (fetches loading_page),
         events := events loading_page @ [Fetch ''POST''], aborted := True \<rparr>)"
    by (rule first_attempt_timeout) (simp_all add: config_simps net_timeout_def)
  have inc: "fst (incrementVisitorCount CONFIG net_timeout loading_page) = Inl RequestTimedOut"
    using increment_cases[of CONFIG net_timeout loading_page] mk by simp
  have inc': "fst (incrementVisitorCount CONFIG net_timeout
      (sample_page\<lparr> container := Some (\<lparr> content = Text ''...'', classes = [], label = None \<rparr>\<lparr> content := loading \<rparr>) \<rparr>)) = Inl RequestTimedOut"
    using inc by (simp only: loading_page_simps)
  from increment_failure_skips_read[OF config_simps(3) sample_page_simps(1) inc']
  have "Fetch ''GET'' \<notin> set (events (initialize CONFIG scheme_of_url net_timeout sample_page)) \<and>
     container (initialize CONFIG scheme_of_url net_timeout sample_page) =
     Some \<lparr> content = Text ''Unable to load visitor count'', classes = [''counter-error''],
            label = Some ''Error loading visitor count'' \<rparr>"
    by (auto simp: sample_page_simps add_class_def)
  with inc config_simps(3) show ?thesis by simp
qed

section \<open>Rendering\<close>

text \<open>
  C9. Rendering is idempotent: for every count and every page, \<open>updateDOM\<close> applied
  twice in succession gives exactly the page (stored string, displayed text, label and
  all) that one application gives; and stripping the characters that are not digits
  is itself idempotent.
\<close>

theorem rendering_idempotent:
  "(case updateDOM count s of Inl e \<Rightarrow> Inl e | Inr s' \<Rightarrow> updateDOM count s') = updateDOM count s \<and>
   strip_non_digits (strip_non_digits x) = strip_non_digits x"
proof -
  have "(case updateDOM count s of Inl e \<Rightarrow> Inl e | Inr s' \<Rightarrow> updateDOM count s') = updateDOM count s"
  proof (cases "toString count")
    case (Inl e)
    then show ?thesis by (simp add: updateDOM_def)
  next
    case (Inr str)
    show ?thesis
    proof (cases "container s")
      case None
      then show ?thesis using Inr by (simp add: updateDOM_def)
    next
      case (Some el)
      then show ?thesis using Inr by (cases "content el") (simp_all add: updateDOM_def)
    qed
  qed
  then show ?thesis by (simp add: strip_idem)
qed

text \<open>
  C8. On a page that has the value element, an increment whose validated count is 42
  stores the string \<open>42\<close>, shows \<open>42\<close> as the text of the value element and sets the
  label \<open>Visitor count: 42\<close>. The text shown is the stored string: for every count that
  \<open>updateDOM\<close> renders, text and label are built from the digits-only string that was
  written to storage, not from the count as it was passed in.
\<close>

theorem increment_renders_count:
  assumes "container s = Some el" and "content el = Value_Span sp"
    and "fst (makeRequest cfg net ''POST'' s) = Inr (JSNumber (Integer 42))"
  shows "incrementVisitorCount cfg net s =
           (Inr (JSNumber (Integer 42)),
            (snd (makeRequest cfg net ''POST'' s))
              \<lparr> storage := Some ''42'',
                container := Some (el\<lparr> content := Value_Span
                  \<lparr> span_text = ''42'', span_label = Some ''Visitor count: 42'' \<rparr> \<rparr>) \<rparr>) \<and>
         (updateDOM count s = Inr t \<longrightarrow>
            storage t = Some (strip_non_digits (ToString count)) \<and>
            container t = Some (el\<lparr> content := Value_Span
              \<lparr> span_text = strip_non_digits (ToString count),
                span_label = Some (''Visitor count: '' @ strip_non_digits (ToString count)) \<rparr> \<rparr>))"
proof -
  let ?s1 = "snd (makeRequest cfg net ''POST'' s)"
  have co: "container ?s1 = Some el"
    using makeRequest_frame[of cfg net "''POST''" s] assms(1) by simp
  have ts: "toString (JSNumber (Integer 42)) = Inr ''42''"
    by (simp add: toString_def number_toString_def digits_of.simps digit_char_def)
  have st: "strip_non_digits ''42'' = ''42''"
    by (simp add: strip_non_digits_def is_digit_def)
  have "updateDOM (JSNumber (Integer 42)) ?s1 =
      Inr (?s1\<lparr> storage := Some ''42'',
                container := Some (el\<lparr> content := Value_Span
                  \<lparr> span_text = ''42'', span_label = Some ''Visitor count: 42'' \<rparr> \<rparr>) \<rparr>)"
    using updateDOM_result[OF ts, of ?s1] co assms(2) by (simp add: st)
  then have a: "incrementVisitorCount cfg net s =
           (Inr (JSNumber (Integer 42)),
            ?s1\<lparr> storage := Some ''42'',
                container := Some (el\<lparr> content := Value_Span
                  \<lparr> span_text = ''42'', span_label = Some ''Visitor count: 42'' \<rparr> \<rparr>) \<rparr>)"
    using assms(3) by (simp add: incrementVisitorCount_def)
  have b: "updateDOM count s = Inr t \<longrightarrow>
            storage t = Some (strip_non_digits (ToString count)) \<and>
            container t = Some (el\<lparr> content := Value_Span
              \<lparr> span_text = strip_non_digits (ToString count),
                span_label = Some (''Visitor count: '' @ strip_non_digits (ToString count)) \<rparr> \<rparr>)"
  proof
    assume u: "updateDOM count s = Inr t"
    then have tc: "toString count = Inr (ToString count)"
      by (auto simp: updateDOM_def toString_def split: if_splits)
    have "updateDOM count s =
            Inr (s\<lparr> storage := Some (strip_non_digits (ToString count)),
                 container := Some (el\<lparr> content := Value_Span
                        \<lparr> span_text = strip_non_digits (ToString count),
                          span_label = Some (''Visitor count: '' @ strip_non_digits (ToString count)) \<rparr> \<rparr>) \<rparr>)"
      using updateDOM_result[OF tc, of s] assms(1,2) by simp
    with u have "t = s\<lparr> storage := Some (strip_non_digits (ToString count)),
                 container := Some (el\<lparr> content := Value_Span
                        \<lparr> span_text = strip_non_digits (ToString count),
                          span_label = Some (''Visitor count: '' @ strip_non_digits (ToString count)) \<rparr> \<rparr>) \<rparr>"
      by simp
    then show "storage t = Some (strip_non_digits (ToString count)) \<and>
            container t = Some (el\<lparr> content := Value_Span
              \<lparr> span_text = strip_non_digits (ToString count),
                span_label = Some (''Visitor count: '' @ strip_non_digits (ToString count)) \<rparr> \<rparr>)"
      by simp
  qed
  from a b show ?thesis by simp
qed

text \<open>The increment on the loading page, with a server that answers 42.\<close>

theorem increment_renders_count_witness:
  "incrementVisitorCount CONFIG (net_count (JSNumber (Integer 42))) loading_page =
     (Inr (JSNumber (Integer 42)),
      loading_page\<lparr> fetches := 1, events := [Fetch ''POST''], storage := Some ''42'',
        container := Some \<lparr> content = Value_Span \<lparr> span_text = ''42'',
                                                      span_label = Some ''Visitor count: 42'' \<rparr>,
                             classes = [], label = None \<rparr> \<rparr>)"
proof -
  let ?net = "net_count (JSNumber (Integer 42))"
  have mk: "makeRequest CONFIG ?net ''POST'' loading_page =
     (Inr (JSNumber (Integer 42)), loading_page\<lparr> fetches := 1, events := [Fetch ''POST''] \<rparr>)"
    using first_attempt_count[of CONFIG loading_page ?net _ _ "JSNumber (Integer 42)" "''POST''", OF _ _ net_count_ok _ get_count_sample]
    by (simp add: config_simps loading_page_simps forty_two)
  have c: "content \<lparr> content = loading, classes = [], label = None \<rparr> =
             Value_Span \<lparr> span_text = ''Loading...'', span_label = None \<rparr>"
    by (simp add: loading_def)
  from increment_renders_count[OF loading_page_simps(1) c, of CONFIG ?net] mk
  show ?thesis by (simp add: loading_page_def sample_page_def)
qed




end
